theory Spec2Isabelle
  imports Main "HOL-Library.Word"
begin

unbundle bit_operations_syntax

section \<open>vmss-nmi: posting an NMI onto a VMware suspended state file\<close>

text \<open>
  A shallow embedding of \<^verbatim>\<open>vmss-nmi.c\<close>. The C program is read for an LP64,
  little-endian host (the x86 machines that produce VMSS files): \<^verbatim>\<open>int\<close> is 32 bits,
  \<^verbatim>\<open>long\<close> and \<^verbatim>\<open>off_t\<close> are 64 bits, and a multi-byte field read with
  \<^verbatim>\<open>fread\<close> has its least significant byte first.
\<close>

subsection \<open>Machine types and constants\<close>

type_synonym byte = "8 word"
type_synonym vmss_tag_t = "16 word"
type_synonym vmss_index_t = "32 word"
type_synonym vmss_block_padsize_t = "16 word"

text \<open>The unsigned integer a run of bytes stands for, least significant byte first.\<close>

definition le_word :: "byte list \<Rightarrow> 'a::len word" where
  "le_word bs = foldr (\<lambda>b w. ucast b + 256 * w) bs 0"

definition LONG_MAX :: int where
  "LONG_MAX = 2 ^ 63 - 1"

definition VMSS_MAGIC_OLD :: "32 word" where
  "VMSS_MAGIC_OLD = 0xbed0bed0"

definition VMSS_MAGIC_RESTORED :: "32 word" where
  "VMSS_MAGIC_RESTORED = 0xbed1bed1"

definition VMSS_MAGIC :: "32 word" where
  "VMSS_MAGIC = 0xbed2bed2"

definition VMSS_MAGIC_PARTIAL :: "32 word" where
  "VMSS_MAGIC_PARTIAL = 0xbed3bed3"

subsection \<open>The tag macros (lines 37--65)\<close>

definition VMSS_TAG_NAMELEN_MASK :: vmss_tag_t where
  "VMSS_TAG_NAMELEN_MASK = 0xff"

definition VMSS_TAG_NAMELEN_SHIFT :: nat where
  "VMSS_TAG_NAMELEN_SHIFT = 8"

definition VMSS_TAG_NINDX_MASK :: vmss_tag_t where
  "VMSS_TAG_NINDX_MASK = 3"

definition VMSS_TAG_NINDX_SHIFT :: nat where
  "VMSS_TAG_NINDX_SHIFT = 6"

definition VMSS_TAG_VALSIZE_MASK :: vmss_tag_t where
  "VMSS_TAG_VALSIZE_MASK = 0x3f"

definition VMSS_TAG_VALSIZE_SHIFT :: nat where
  "VMSS_TAG_VALSIZE_SHIFT = 0"

definition VMSS_TAG_NAMELEN :: "vmss_tag_t \<Rightarrow> nat" where
  "VMSS_TAG_NAMELEN t = unat (drop_bit VMSS_TAG_NAMELEN_SHIFT t AND VMSS_TAG_NAMELEN_MASK)"

definition VMSS_TAG_NINDX :: "vmss_tag_t \<Rightarrow> nat" where
  "VMSS_TAG_NINDX t = unat (drop_bit VMSS_TAG_NINDX_SHIFT t AND VMSS_TAG_NINDX_MASK)"

definition VMSS_TAG_VALSIZE :: "vmss_tag_t \<Rightarrow> nat" where
  "VMSS_TAG_VALSIZE t = unat (drop_bit VMSS_TAG_VALSIZE_SHIFT t AND VMSS_TAG_VALSIZE_MASK)"

definition VMSS_TAG_NULL :: vmss_tag_t where
  "VMSS_TAG_NULL = 0"

definition VMSS_TAG_VALSIZE_BLOCK_COMPRESSED :: nat where
  "VMSS_TAG_VALSIZE_BLOCK_COMPRESSED = 0x3e"

definition VMSS_TAG_VALSIZE_BLOCK :: nat where
  "VMSS_TAG_VALSIZE_BLOCK = 0x3f"

definition VMSS_TAG_ISBLOCK :: "vmss_tag_t \<Rightarrow> bool" where
  "VMSS_TAG_ISBLOCK t =
     (VMSS_TAG_VALSIZE t = VMSS_TAG_VALSIZE_BLOCK_COMPRESSED \<or>
      VMSS_TAG_VALSIZE t = VMSS_TAG_VALSIZE_BLOCK)"

definition VMSS_GROUP_NAMELEN :: nat where
  "VMSS_GROUP_NAMELEN = 64"

record vmss_group =
  vmss_group_name :: "byte list"
  vmss_group_offs :: "64 word"
  vmss_group_size :: "64 word"

text \<open>The sizes of the automatic arrays of \<^verbatim>\<open>setnmi\<close> (lines 161--163).\<close>

definition sizeof_name :: nat where
  "sizeof_name = unat VMSS_TAG_NAMELEN_MASK + 1"

definition sizeof_buf :: nat where
  "sizeof_buf = unat VMSS_TAG_VALSIZE_MASK"

definition nelem_idx :: nat where
  "nelem_idx = unat VMSS_TAG_NINDX_MASK"

subsection \<open>The stream, the diagnostics and the options\<close>

text \<open>
  The state of the run: the bytes of the file opened with mode \<^verbatim>\<open>r+\<close>, the file
  position indicator of the stream, and what \<^verbatim>\<open>warn\<close> has printed. The field
  \<open>fp_reads\<close> is an observation only: every \<^verbatim>\<open>fread\<close> that asks for bytes
  records there the offset, the number of bytes asked for and the number delivered.
  The output of \<^verbatim>\<open>verbose\<close> changes neither the file nor the control flow and is
  left out.
\<close>

datatype warning =
    Warn_is vmss_index_t byte
  | Warn_skipping vmss_index_t byte "32 word"
  | Warn_setting vmss_index_t byte byte

record state =
  fp_bytes :: "byte list"
  fp_pos :: nat
  fp_reads :: "(nat \<times> nat \<times> nat) list"
  stderr :: "warning list"

text \<open>One constructor for each call of \<^verbatim>\<open>fatal\<close> (and one for \<^verbatim>\<open>usage\<close>).\<close>

datatype fatal =
    CantReadGroup "byte list" nat
  | CantReadTag nat
  | CantReadName nat
  | CantReadIndex nat
  | CantReadBlock nat
  | CantReadPadding nat
  | CantSkipBlock nat
  | CantSeek nat
  | UnexpectedSize nat
  | CantReadBuffer nat
  | CantResetOffset
  | CantWriteBuffer nat
  | CantOpen
  | CantReadHeader
  | Cant32bit
  | NotRecognized
  | CantReadGroups nat
  | InvalidCPU
  | ExpectedFile
  | Usage

text \<open>
  The error classes of the specification (section 7), attached to the diagnostics of the
  code following the specification's words: a container magic that is unsupported or not
  recognised is a FormatError, a \<^verbatim>\<open>pendingNMI\<close> of the wrong size a SchemaViolation,
  a failed read, seek or write an IOError; the command line's failures are none of these.
\<close>

datatype error_class = FormatError | IOError | SchemaViolation | CommandLine

fun class_of :: "fatal \<Rightarrow> error_class" where
  "class_of Cant32bit = FormatError"
| "class_of NotRecognized = FormatError"
| "class_of (UnexpectedSize n) = SchemaViolation"
| "class_of InvalidCPU = CommandLine"
| "class_of ExpectedFile = CommandLine"
| "class_of Usage = CommandLine"
| "class_of e = IOError"

text \<open>
  The offset a diagnostic is given as its argument, when it is given one: the value of
  \<^verbatim>\<open>ftell(fp)\<close> or of the saved \<^verbatim>\<open>offs\<close> (a \<^verbatim>\<open>long\<close>) in \<^verbatim>\<open>setnmi\<close>, the group's
  \<^verbatim>\<open>vmss_group_offs\<close> at line 155. This is the argument, not the text that appears.
\<close>

fun offset_of :: "fatal \<Rightarrow> nat option" where
  "offset_of (CantReadGroup nm off) = Some off"
| "offset_of (CantReadTag off) = Some off"
| "offset_of (CantReadName off) = Some off"
| "offset_of (CantReadIndex off) = Some off"
| "offset_of (CantReadBlock off) = Some off"
| "offset_of (CantReadPadding off) = Some off"
| "offset_of (CantSkipBlock off) = Some off"
| "offset_of (CantSeek off) = Some off"
| "offset_of (CantReadBuffer off) = Some off"
| "offset_of (CantWriteBuffer off) = Some off"
| "offset_of e = None"

text \<open>
  The number that appears in the diagnostic. Line 155 formats its 64-bit argument with
  \<^verbatim>\<open>%llx\<close>: the offset appears in full. The diagnostics of \<^verbatim>\<open>setnmi\<close> (lines 167, 180,
  187, 199, 208, 215, 222, 232, 255) format a \<^verbatim>\<open>long\<close> with \<^verbatim>\<open>%x\<close>, the conversion of an
  \<^verbatim>\<open>unsigned int\<close>: with a 64-bit \<^verbatim>\<open>long\<close> and a 32-bit \<^verbatim>\<open>int\<close> the low 32 bits of the
  offset appear.
\<close>

fun printed_offset :: "fatal \<Rightarrow> nat option" where
  "printed_offset (CantReadGroup nm off) = Some off"
| "printed_offset e = map_option (\<lambda>off. off mod 2 ^ 32) (offset_of e)"

text \<open>The globals \<^verbatim>\<open>g_verbose\<close>, \<^verbatim>\<open>g_cpu\<close> (an \<^verbatim>\<open>int\<close>) and \<^verbatim>\<open>g_nmi\<close>.\<close>

record config =
  g_verbose :: bool
  g_cpu :: "32 word"
  g_nmi :: byte

definition initial_config :: config where
  "initial_config = \<lparr>g_verbose = False, g_cpu = 0, g_nmi = 1\<rparr>"

subsection \<open>The C library\<close>

text \<open>
  \<^verbatim>\<open>fread(ptr, size, nmemb, fp)\<close> delivers the bytes that are there, up to
  \<open>size * nmemb\<close>, advances the position by as many and returns the number of complete
  items; with \<open>size\<close> or \<open>nmemb\<close> zero it returns zero and leaves the stream alone.
\<close>

definition fread :: "nat \<Rightarrow> nat \<Rightarrow> state \<Rightarrow> nat \<times> byte list \<times> state" where
  "fread sz nmemb fp =
     (if sz = 0 \<or> nmemb = 0 then (0, [], fp)
      else
        let got = take (sz * nmemb) (drop (fp_pos fp) (fp_bytes fp))
        in (length got div sz, got,
            fp\<lparr>fp_pos := fp_pos fp + length got,
               fp_reads := fp_reads fp @ [(fp_pos fp, sz * nmemb, length got)]\<rparr>))"

definition ftell :: "state \<Rightarrow> nat" where
  "ftell fp = fp_pos fp"

datatype whence = SEEK_SET | SEEK_CUR

text \<open>\<^verbatim>\<open>fseek\<close> fails (\<open>None\<close>) when the new position is negative or not a \<^verbatim>\<open>long\<close>;
  a position beyond the end of the file is allowed.\<close>

definition fseek :: "int \<Rightarrow> whence \<Rightarrow> state \<Rightarrow> state option" where
  "fseek off wh fp =
     (let new = (case wh of SEEK_SET \<Rightarrow> off | SEEK_CUR \<Rightarrow> int (fp_pos fp) + off)
      in if new < 0 \<or> LONG_MAX < new then None else Some (fp\<lparr>fp_pos := nat new\<rparr>))"

text \<open>\<^verbatim>\<open>fwrite\<close> of one item: the bytes replace those at the position (a gap beyond the
  end of the file reads as zeros) and the position advances. The medium never fails, and
  the stream is taken as unbuffered: a write reaches the file at once and the next read
  sees it (the code reads after the write of line 254 with no call of \<^verbatim>\<open>fseek\<close> or
  \<^verbatim>\<open>fflush\<close> in between).\<close>

definition fwrite :: "byte list \<Rightarrow> state \<Rightarrow> nat \<times> state" where
  "fwrite d fp =
     (let old = fp_bytes fp @ replicate (fp_pos fp - length (fp_bytes fp)) 0
      in (1, fp\<lparr>fp_bytes := take (fp_pos fp) old @ d @ drop (fp_pos fp + length d) old,
                 fp_pos := fp_pos fp + length d\<rparr>))"

definition warn :: "warning \<Rightarrow> state \<Rightarrow> state" where
  "warn w fp = fp\<lparr>stderr := stderr fp @ [w]\<rparr>"

text \<open>A C string ends at its first NUL. The code only tests \<^verbatim>\<open>strcmp\<close> against zero,
  so every non-zero result is 1 here.\<close>

definition c_str :: "byte list \<Rightarrow> byte list" where
  "c_str s = takeWhile (\<lambda>b. b \<noteq> 0) s"

definition strcmp :: "byte list \<Rightarrow> byte list \<Rightarrow> int" where
  "strcmp s1 s2 = (if c_str s1 = c_str s2 then 0 else 1)"

definition str_pendingNMI :: "byte list" where
  "str_pendingNMI = map of_char ''pendingNMI'' @ [0]"

definition str_cpu :: "byte list" where
  "str_cpu = map of_char ''cpu'' @ [0]"

subsection \<open>\<^verbatim>\<open>setnmi\<close> (lines 151--257)\<close>

text \<open>
  One pass of the body of the \<^verbatim>\<open>for (;;)\<close> loop ends in \<^verbatim>\<open>continue\<close>, in
  \<^verbatim>\<open>break\<close> or in \<^verbatim>\<open>fatal\<close>, which exits the process. \<open>Overrun\<close> stands for a
  store outside one of the automatic arrays \<^verbatim>\<open>name\<close>, \<^verbatim>\<open>idx\<close> and \<^verbatim>\<open>buf\<close>,
  which C leaves undefined: the model checks the capacity before each such store.
\<close>

datatype step = Continue state | Break state | Exit fatal state | Overrun

text \<open>\<^verbatim>\<open>idx\<close> after \<^verbatim>\<open>bzero\<close> and the \<^verbatim>\<open>fread\<close> of the bytes \<open>ix\<close> into it.\<close>

definition idx_array :: "byte list \<Rightarrow> vmss_index_t list" where
  "idx_array ix =
     (let mem = ix @ replicate (4 * nelem_idx - length ix) 0
      in map (\<lambda>i. le_word (take 4 (drop (4 * i) mem))) [0..<nelem_idx])"

text \<open>Lines 166--187: the tag, the name and the indices.\<close>

definition read_record ::
  "state \<Rightarrow> step + (vmss_tag_t \<times> byte list \<times> vmss_index_t list \<times> state)" where
  "read_record fp =
     (case fread 2 1 fp of (n, d, fp1) \<Rightarrow>
        if n \<noteq> 1 then Inl (Exit (CantReadTag (ftell fp1)) fp1)
        else
          let tag = le_word d in
          if tag = VMSS_TAG_NULL then Inl (Break fp1)
          else
            let len = VMSS_TAG_NAMELEN tag; nindx = VMSS_TAG_NINDX tag in
            if sizeof_name < len then Inl Overrun
            else
              (case fread len 1 fp1 of (n, nm, fp2) \<Rightarrow>
                 if n \<noteq> 1 then Inl (Exit (CantReadName (ftell fp2)) fp2)
                 else if sizeof_name \<le> len then Inl Overrun
                 else
                   let name = nm @ [0] in
                   if nelem_idx < nindx then Inl Overrun
                   else
                     (case fread 4 nindx fp2 of (n, ix, fp3) \<Rightarrow>
                        if n \<noteq> nindx then Inl (Exit (CantReadIndex (ftell fp3)) fp3)
                        else Inr (tag, name, idx_array ix, fp3))))"

text \<open>Lines 192--218: a block is skipped.\<close>

definition skip_block :: "state \<Rightarrow> step" where
  "skip_block fp =
     (let offs = ftell fp in
      case fread 16 1 fp of (n, blk, fp1) \<Rightarrow>
        if n \<noteq> 1 then Exit (CantReadBlock offs) fp1
        else
          (case fread 2 1 fp1 of (n, p, fp2) \<Rightarrow>
             if n \<noteq> 1 then Exit (CantReadPadding offs) fp2
             else
               let vmss_block_size = (le_word (take 8 blk) :: 64 word);
                   pad = (le_word p :: vmss_block_padsize_t)
               in (case fseek (sint (vmss_block_size + ucast pad)) SEEK_CUR fp2 of
                     None \<Rightarrow> Exit (CantSkipBlock offs) fp2
                   | Some fp3 \<Rightarrow> Continue fp3)))"

text \<open>Lines 226--255: the value of \<^verbatim>\<open>pendingNMI\<close> is read, reported and perhaps
  rewritten.\<close>

definition patch :: "config \<Rightarrow> vmss_index_t list \<Rightarrow> nat \<Rightarrow> state \<Rightarrow> step" where
  "patch cfg idx sz fp =
     (if sz \<noteq> 1 then Exit (UnexpectedSize sz) fp
      else if sizeof_buf < sz then Overrun
      else
        (case fread sz 1 fp of (n, buf, fp1) \<Rightarrow>
           if n \<noteq> 1 then Exit (CantReadBuffer (ftell fp1)) fp1
           else if idx ! 0 \<noteq> g_cpu cfg then
             (if g_cpu cfg = - 1 then Continue (warn (Warn_is (idx ! 0) (buf ! 0)) fp1)
              else Continue (warn (Warn_skipping (idx ! 0) (buf ! 0) (g_cpu cfg)) fp1))
           else
             let fp2 = warn (Warn_setting (idx ! 0) (buf ! 0) (g_nmi cfg)) fp1 in
             (case fseek (- 1) SEEK_CUR fp2 of
                None \<Rightarrow> Exit CantResetOffset fp2
              | Some fp3 \<Rightarrow>
                  (case fwrite (take sz (buf[0 := g_nmi cfg])) fp3 of (n, fp4) \<Rightarrow>
                     if n \<noteq> 1 then Exit (CantWriteBuffer (ftell fp4)) fp4
                     else Continue fp4))))"

definition setnmi_body :: "config \<Rightarrow> state \<Rightarrow> step" where
  "setnmi_body cfg fp =
     (case read_record fp of
        Inl s \<Rightarrow> s
      | Inr (tag, name, idx, fp3) \<Rightarrow>
          if VMSS_TAG_ISBLOCK tag then skip_block fp3
          else if strcmp name str_pendingNMI \<noteq> 0 then
            (case fseek (int (VMSS_TAG_VALSIZE tag)) SEEK_CUR fp3 of
               None \<Rightarrow> Exit (CantSeek (ftell fp3)) fp3
             | Some fp4 \<Rightarrow> Continue fp4)
          else patch cfg idx (VMSS_TAG_VALSIZE tag) fp3)"

text \<open>
  The loop can run forever (a block whose size, read as a \<^verbatim>\<open>long\<close>, is negative
  seeks backwards), so it takes fuel: \<open>Running\<close> is the loop still going when the fuel is
  spent, with the state it has reached. \<open>Exited0\<close> is an exit before a stream is open.
\<close>

datatype outcome =
    Returned state
  | Exited fatal state
  | Exited0 fatal
  | Running state
  | Undefined_Behaviour

fun setnmi_loop :: "nat \<Rightarrow> config \<Rightarrow> state \<Rightarrow> outcome" where
  "setnmi_loop 0 cfg fp = Running fp"
| "setnmi_loop (Suc n) cfg fp =
     (case setnmi_body cfg fp of
        Continue fp' \<Rightarrow> setnmi_loop n cfg fp'
      | Break fp' \<Rightarrow> Returned fp'
      | Exit e fp' \<Rightarrow> Exited e fp'
      | Overrun \<Rightarrow> Undefined_Behaviour)"

definition setnmi :: "nat \<Rightarrow> config \<Rightarrow> state \<Rightarrow> vmss_group \<Rightarrow> outcome" where
  "setnmi fuel cfg fp grp =
     (case fseek (sint (vmss_group_offs grp)) SEEK_SET fp of
        None \<Rightarrow> Exited (CantReadGroup (vmss_group_name grp) (unat (vmss_group_offs grp))) fp
      | Some fp1 \<Rightarrow> setnmi_loop fuel cfg fp1)"

subsection \<open>\<^verbatim>\<open>process\<close> (lines 259--308) and \<^verbatim>\<open>main\<close> (lines 310--347)\<close>

definition sizeof_vmss_header :: nat where
  "sizeof_vmss_header = 12"

definition sizeof_vmss_group :: nat where
  "sizeof_vmss_group = VMSS_GROUP_NAMELEN + 8 + 8"

definition read_group :: "byte list \<Rightarrow> vmss_group" where
  "read_group b =
     \<lparr>vmss_group_name = take VMSS_GROUP_NAMELEN b,
      vmss_group_offs = le_word (take 8 (drop VMSS_GROUP_NAMELEN b)),
      vmss_group_size = le_word (take 8 (drop (VMSS_GROUP_NAMELEN + 8) b))\<rparr>"

text \<open>The table of groups in the memory that \<^verbatim>\<open>alloca\<close> provides (taken to succeed):
  entry \<open>i\<close> is made of the 80 bytes at \<open>80 * i\<close> of what was read.\<close>

definition groups_array :: "nat \<Rightarrow> byte list \<Rightarrow> vmss_group list" where
  "groups_array ngroups g =
     map (\<lambda>i. read_group (take sizeof_vmss_group (drop (sizeof_vmss_group * i) g)))
       [0..<ngroups]"

text \<open>The file named on the command line: \<open>None\<close> when it cannot be opened for update.\<close>

definition fopen :: "byte list option \<Rightarrow> state option" where
  "fopen file =
     (case file of
        None \<Rightarrow> None
      | Some bs \<Rightarrow> Some \<lparr>fp_bytes = bs, fp_pos = 0, fp_reads = [], stderr = []\<rparr>)"

text \<open>The loop over the groups (lines 296--305); every call of \<^verbatim>\<open>setnmi\<close> has the
  whole fuel for its own loop.\<close>

fun process_groups :: "nat \<Rightarrow> config \<Rightarrow> vmss_group list \<Rightarrow> state \<Rightarrow> outcome" where
  "process_groups fuel cfg [] fp = Returned fp"
| "process_groups fuel cfg (grp # grps) fp =
     (if strcmp (vmss_group_name grp) str_cpu = 0 then
        (case setnmi fuel cfg fp grp of
           Returned fp' \<Rightarrow> process_groups fuel cfg grps fp'
         | out \<Rightarrow> out)
      else process_groups fuel cfg grps fp)"

definition process :: "nat \<Rightarrow> config \<Rightarrow> byte list option \<Rightarrow> outcome" where
  "process fuel cfg file =
     (case fopen file of
        None \<Rightarrow> Exited0 CantOpen
      | Some fp \<Rightarrow>
          (case fread sizeof_vmss_header 1 fp of (n, hdr, fp1) \<Rightarrow>
             if n \<noteq> 1 then Exited CantReadHeader fp1
             else
               let vmss_hdr_id = (le_word (take 4 hdr) :: 32 word);
                   vmss_hdr_numgroups = (le_word (take 4 (drop 8 hdr)) :: 32 word)
               in
                 if vmss_hdr_id = VMSS_MAGIC_OLD then Exited Cant32bit fp1
                 else if vmss_hdr_id = VMSS_MAGIC \<or> vmss_hdr_id = VMSS_MAGIC_RESTORED \<or>
                         vmss_hdr_id = VMSS_MAGIC_PARTIAL then
                   (let ngroups = unat vmss_hdr_numgroups in
                    case fread sizeof_vmss_group ngroups fp1 of (n, g, fp2) \<Rightarrow>
                      if n \<noteq> ngroups then Exited (CantReadGroups ngroups) fp2
                      else process_groups fuel cfg (groups_array ngroups g) fp2)
                 else Exited NotRecognized fp1))"

text \<open>
  The options as \<^verbatim>\<open>getopt\<close> hands them over; \<open>Opt_c v e\<close> carries what
  \<^verbatim>\<open>strtoul\<close> made of the argument of \<^verbatim>\<open>-c\<close>: the value \<open>v\<close>, and in \<open>e\<close>
  whether the whole argument was consumed.
\<close>

datatype opt = Opt_c "64 word" bool | Opt_v | Opt_z | Opt_n | Opt_other

fun getopt_loop :: "opt list \<Rightarrow> config \<Rightarrow> fatal + config" where
  "getopt_loop [] cfg = Inr cfg"
| "getopt_loop (Opt_c v e # os) cfg =
     (let cfg' = cfg\<lparr>g_cpu := ucast v\<rparr>
      in if e \<and> 0 \<le> sint (g_cpu cfg') then getopt_loop os cfg' else Inl InvalidCPU)"
| "getopt_loop (Opt_v # os) cfg = getopt_loop os (cfg\<lparr>g_verbose := True\<rparr>)"
| "getopt_loop (Opt_z # os) cfg = getopt_loop os (cfg\<lparr>g_nmi := 0\<rparr>)"
| "getopt_loop (Opt_n # os) cfg = getopt_loop os (cfg\<lparr>g_cpu := - 1\<rparr>)"
| "getopt_loop (Opt_other # os) cfg = Inl Usage"

text \<open>\<open>operand\<close> is the file argument, when there is one.\<close>

definition main :: "nat \<Rightarrow> opt list \<Rightarrow> byte list option option \<Rightarrow> outcome" where
  "main fuel opts operand =
     (case getopt_loop opts initial_config of
        Inl e \<Rightarrow> Exited0 e
      | Inr cfg \<Rightarrow>
          (case operand of
             None \<Rightarrow> Exited0 ExpectedFile
           | Some file \<Rightarrow> process fuel cfg file))"

subsection \<open>Observations and example files\<close>

text \<open>The state a pass of the loop ends in, when it ends in one.\<close>

fun step_state :: "step \<Rightarrow> state option" where
  "step_state (Continue fp) = Some fp"
| "step_state (Break fp) = Some fp"
| "step_state (Exit e fp) = Some fp"
| "step_state Overrun = None"

fun outcome_state :: "outcome \<Rightarrow> state option" where
  "outcome_state (Returned fp) = Some fp"
| "outcome_state (Exited e fp) = Some fp"
| "outcome_state (Exited0 e) = None"
| "outcome_state (Running fp) = Some fp"
| "outcome_state Undefined_Behaviour = None"

text \<open>A short read: fewer bytes delivered than asked for.\<close>

fun short_read :: "nat \<times> nat \<times> nat \<Rightarrow> bool" where
  "short_read (off, req, got) = (got < req)"

text \<open>
  Observations on the log of reads: no read so far fell short; the last read, and only
  it, fell short, and the stream stands where that read ran out of bytes.
\<close>

definition no_short_read :: "state \<Rightarrow> bool" where
  "no_short_read fp = (\<not> list_ex short_read (fp_reads fp))"






text \<open>A stream on the bytes \<open>bs\<close>, positioned at \<open>p\<close>, that has read and printed nothing.\<close>

definition stream_at :: "byte list \<Rightarrow> nat \<Rightarrow> state" where
  "stream_at bs p = \<lparr>fp_bytes = bs, fp_pos = p, fp_reads = [], stderr = []\<rparr>"

text \<open>
  The example of the specification (section 8): a container with one group \<^verbatim>\<open>cpu\<close> at
  offset 92 that holds a tag \<^verbatim>\<open>foo\<close> with a 4-byte value, \<^verbatim>\<open>pendingNMI\<close> with
  index 0 and value 0 (its tag at offset 101, its value at offset 117) and the terminator.
\<close>

definition example_header :: "byte list" where
  "example_header =
     [0xd2, 0xbe, 0xd2, 0xbe, 8, 0, 0, 0, 1, 0, 0, 0] @
     map of_char ''cpu'' @ replicate 61 0 @ [92, 0, 0, 0, 0, 0, 0, 0] @ [28, 0, 0, 0, 0, 0, 0, 0]"

definition example_file :: "byte list" where
  "example_file =
     example_header @
     [0x04, 0x03] @ map of_char ''foo'' @ [9, 9, 9, 9] @
     [0x41, 0x0a] @ map of_char ''pendingNMI'' @ [0, 0, 0, 0] @ [0] @
     [0, 0]"

text \<open>The same container, where \<^verbatim>\<open>pendingNMI\<close> is the only record and its index is
  \<open>0xffffffff\<close> (its value at offset 108).\<close>

definition all_ones_file :: "byte list" where
  "all_ones_file =
     example_header @
     [0x41, 0x0a] @ map of_char ''pendingNMI'' @ [0xff, 0xff, 0xff, 0xff] @ [0] @
     [0, 0]"

text \<open>A record stream with a block \<^verbatim>\<open>a\<close> of size 4 and pad 2, and the terminator.\<close>

definition block_stream :: "byte list" where
  "block_stream =
     [0x3f, 0x01, 0x61] @ [4, 0, 0, 0, 0, 0, 0, 0] @ [8, 0, 0, 0, 0, 0, 0, 0] @ [2, 0] @
     [7, 7, 7, 7, 7, 7] @ [0, 0]"

text \<open>A record stream with a block \<^verbatim>\<open>a\<close> whose size field is \<open>2\<^sup>6\<^sup>4 - 1\<close>, pad 0.\<close>

definition huge_block_stream :: "byte list" where
  "huge_block_stream =
     [0x3f, 0x01, 0x61] @ [0xff, 0xff, 0xff, 0xff, 0xff, 0xff, 0xff, 0xff] @
     [0, 0, 0, 0, 0, 0, 0, 0] @ [0, 0]"

text \<open>A record stream with a block-coded tag named \<^verbatim>\<open>pendingNMI\<close> (value size code
  63, block size 0, pad 0), and the terminator.\<close>

definition block_named_pendingNMI :: "byte list" where
  "block_named_pendingNMI =
     [0x3f, 0x0a] @ map of_char ''pendingNMI'' @ replicate 16 0 @ [0, 0] @ [0, 0]"

text \<open>A record stream with \<^verbatim>\<open>pendingNMI\<close> of value size 2.\<close>

definition wide_pendingNMI :: "byte list" where
  "wide_pendingNMI = [0x02, 0x0a] @ map of_char ''pendingNMI'' @ [0, 0] @ [0, 0]"



text \<open>A container header with the magic of the 32-bit format, and one of zeros.\<close>

definition old_magic_file :: "byte list" where
  "old_magic_file = [0xd0, 0xbe, 0xd0, 0xbe, 8, 0, 0, 0, 1, 0, 0, 0] @ replicate 80 0"

definition zero_magic_file :: "byte list" where
  "zero_magic_file = replicate 92 0"

text \<open>A record stream with a block \<^verbatim>\<open>a\<close> whose size field is \<open>2\<^sup>6\<^sup>4 - 21\<close>, pad 0:
  as a \<^verbatim>\<open>long\<close> the size is \<open>-21\<close>, the length of the tag, the name and the block
  header.\<close>

definition looping_stream :: "byte list" where
  "looping_stream =
     [0x3f, 0x01, 0x61] @ [0xeb, 0xff, 0xff, 0xff, 0xff, 0xff, 0xff, 0xff] @
     [0, 0, 0, 0, 0, 0, 0, 0] @ [0, 0]"


subsection \<open>The records a run stands at\<close>


text \<open>
  The states in which a run begins a pass of the loop of \<^verbatim>\<open>setnmi\<close>, in the order of
  the run: for the loop itself, for a call of \<^verbatim>\<open>setnmi\<close>, for the loop over the groups
  in \<^verbatim>\<open>process\<close>, for \<^verbatim>\<open>process\<close> and for \<^verbatim>\<open>main\<close>. Each follows the control flow of
  the function it observes and lists the states instead of giving the outcome.
\<close>

fun setnmi_passes :: "nat \<Rightarrow> config \<Rightarrow> state \<Rightarrow> state list" where
  "setnmi_passes 0 cfg fp = []"
| "setnmi_passes (Suc n) cfg fp =
     fp # (case setnmi_body cfg fp of
             Continue fp' \<Rightarrow> setnmi_passes n cfg fp'
           | Break fp' \<Rightarrow> []
           | Exit e fp' \<Rightarrow> []
           | Overrun \<Rightarrow> [])"






section \<open>Properties\<close>

subsection \<open>Reads that succeed and reads that fall short\<close>

lemma fread_zero: "sz = 0 \<or> n = 0 \<Longrightarrow> fread sz n fp = (0, [], fp)"
  by (simp add: fread_def)

lemma fread_full:
  assumes "0 < sz" "0 < n" "fp_pos fp + sz * n \<le> length (fp_bytes fp)"
  shows "fread sz n fp =
    (n, take (sz * n) (drop (fp_pos fp) (fp_bytes fp)),
     fp\<lparr>fp_pos := fp_pos fp + sz * n,
        fp_reads := fp_reads fp @ [(fp_pos fp, sz * n, sz * n)]\<rparr>)"
proof -
  define m where "m = sz * n"
  have l: "length (take m (drop (fp_pos fp) (fp_bytes fp))) = m"
    using assms(3) unfolding m_def [symmetric] by simp
  have d: "m div sz = n" using assms(1) by (simp add: m_def)
  show ?thesis
    using assms(1,2) l d unfolding fread_def Let_def m_def [symmetric] by simp
qed

lemma fread_short:
  assumes "0 < sz" "0 < n" "length (fp_bytes fp) < fp_pos fp + sz * n"
  shows "\<exists>k d. k < n \<and> length d < sz * n \<and> fread sz n fp =
    (k, d, fp\<lparr>fp_pos := fp_pos fp + length d,
        fp_reads := fp_reads fp @ [(fp_pos fp, sz * n, length d)]\<rparr>)"
proof -
  define m where "m = sz * n"
  define got where "got = take m (drop (fp_pos fp) (fp_bytes fp))"
  have "0 < m" using assms(1,2) by (simp add: m_def)
  then have l: "length got < m"
    using assms(3) unfolding m_def [symmetric] got_def by auto
  then have "length got div sz < n"
    using assms(1) by (simp add: m_def less_mult_imp_div_less mult.commute)
  with l show ?thesis
    using assms(1,2) unfolding fread_def Let_def m_def [symmetric] got_def [symmetric] by simp
qed

lemma fread_bytes [simp]: "fp_bytes (snd (snd (fread sz n fp))) = fp_bytes fp"
  by (simp add: fread_def Let_def)

lemma fread_stderr [simp]: "stderr (snd (snd (fread sz n fp))) = stderr fp"
  by (simp add: fread_def Let_def)

subsection \<open>The fields of a tag\<close>

lemma and_ff: "(w :: 16 word) AND 0xff = take_bit 8 w"
  using take_bit_eq_mask [of 8 w] by (simp add: mask_eq_exp_minus_1)
lemma and_3: "(w :: 16 word) AND 3 = take_bit 2 w"
  using take_bit_eq_mask [of 2 w] by (simp add: mask_eq_exp_minus_1)
lemma and_3f: "(w :: 16 word) AND 0x3f = take_bit 6 w"
  using take_bit_eq_mask [of 6 w] by (simp add: mask_eq_exp_minus_1)
lemma unat_tag_bound: "unat (t::16 word) < 65536"
  using unsigned_less [of t, where ?'a = nat] by simp
lemma namelen_eq: "VMSS_TAG_NAMELEN t = unat t div 256"
proof -
  have "unat t div 256 < 256" using unat_tag_bound [of t] by simp
  then show ?thesis
    by (simp add: VMSS_TAG_NAMELEN_def VMSS_TAG_NAMELEN_SHIFT_def VMSS_TAG_NAMELEN_MASK_def and_ff
      take_bit_eq_mod drop_bit_eq_div unat_mod unat_div)
qed
lemma nindx_eq: "VMSS_TAG_NINDX t = unat t div 64 mod 4"
  by (simp add: VMSS_TAG_NINDX_def VMSS_TAG_NINDX_SHIFT_def VMSS_TAG_NINDX_MASK_def and_3
       take_bit_eq_mod drop_bit_eq_div unat_mod unat_div)
lemma valsize_eq: "VMSS_TAG_VALSIZE t = unat t mod 64"
  by (simp add: VMSS_TAG_VALSIZE_def VMSS_TAG_VALSIZE_SHIFT_def VMSS_TAG_VALSIZE_MASK_def and_3f
       take_bit_eq_mod drop_bit_eq_div unat_mod unat_div)
lemma recompose_aux: "(n::nat) = 64 * q + r \<Longrightarrow> q = 4 * p + s \<Longrightarrow> n = 256 * p + 64 * s + r"
  by simp
lemma recompose: "(n::nat) = 256 * (n div 256) + 64 * (n div 64 mod 4) + n mod 64"
proof -
  have c: "n div 256 = n div 64 div 4" by (simp add: div_mult2_eq)
  have a: "n = 64 * (n div 64) + n mod 64" by simp
  have b: "n div 64 = 4 * (n div 64 div 4) + n div 64 mod 4" by simp
  show ?thesis unfolding c by (rule recompose_aux [OF a b])
qed

lemma namelen_bound: "VMSS_TAG_NAMELEN t \<le> 255"
  using unat_tag_bound [of t] by (simp add: namelen_eq)

lemma nindx_bound: "VMSS_TAG_NINDX t \<le> 3"
proof -
  have "unat t div 64 mod 4 < 4" by simp
  then show ?thesis unfolding nindx_eq by linarith
qed

lemma valsize_bound: "VMSS_TAG_VALSIZE t \<le> 63"
proof -
  have "unat t mod 64 < 64" by simp
  then show ?thesis unfolding valsize_eq by linarith
qed

lemma sizeof_name_eq: "sizeof_name = 256"
  by (simp add: sizeof_name_def VMSS_TAG_NAMELEN_MASK_def)

lemma nelem_idx_eq: "nelem_idx = 3"
  by (simp add: nelem_idx_def VMSS_TAG_NINDX_MASK_def)

lemma sizeof_buf_eq: "sizeof_buf = 63"
  by (simp add: sizeof_buf_def VMSS_TAG_VALSIZE_MASK_def)

subsection \<open>What a successful read of a record header says\<close>

lemma fread_ok:
  assumes "fread sz n fp = (k, d, fp')" "k = n" "0 < sz" "0 < n"
  shows "fp_pos fp + sz * n \<le> length (fp_bytes fp) \<and>
    d = take (sz * n) (drop (fp_pos fp) (fp_bytes fp)) \<and>
    fp' = fp\<lparr>fp_pos := fp_pos fp + sz * n,
              fp_reads := fp_reads fp @ [(fp_pos fp, sz * n, sz * n)]\<rparr>"
proof (cases "fp_pos fp + sz * n \<le> length (fp_bytes fp)")
  case True
  then show ?thesis using fread_full [OF assms(3,4) True] assms(1) by simp
next
  case False
  then have "length (fp_bytes fp) < fp_pos fp + sz * n" by simp
  from fread_short [OF assms(3,4) this] assms(1,2) show ?thesis by auto
qed


lemma read_record_Inr:
  assumes "read_record fp = Inr (tag, name, idx, fp3)"
  defines "p \<equiv> fp_pos fp" and "bs \<equiv> fp_bytes fp"
  defines "len \<equiv> VMSS_TAG_NAMELEN tag" and "k \<equiv> VMSS_TAG_NINDX tag"
  shows "tag = le_word (take 2 (drop p bs))" and "tag \<noteq> VMSS_TAG_NULL"
    and "0 < len" and "p + 2 + len + 4 * k \<le> length bs"
    and "name = take len (drop (p + 2) bs) @ [0]"
    and "idx = idx_array (take (4 * k) (drop (p + 2 + len) bs))"
    and "fp3 = fp\<lparr>fp_pos := p + 2 + len + 4 * k,
            fp_reads := fp_reads fp @ (p, 2, 2) # (p + 2, len, len) #
              (if k = 0 then [] else [(p + 2 + len, 4 * k, 4 * k)])\<rparr>"
proof -
  obtain n1 d1 fp1 where r1: "fread 2 1 fp = (n1, d1, fp1)" by (cases "fread 2 1 fp") auto
  have n1: "n1 = 1" using assms(1) r1 by (auto simp: read_record_def split: if_splits)
  note f1 = fread_ok [OF r1 n1, simplified]
  have tag: "tag = le_word d1" and nz: "tag \<noteq> VMSS_TAG_NULL"
    using assms(1) r1 n1 by (auto simp: read_record_def Let_def split: if_splits prod.splits)
  obtain n2 d2 fp2 where r2: "fread len 1 fp1 = (n2, d2, fp2)" by (cases "fread len 1 fp1") auto
  have n2: "n2 = 1"
    using assms(1) r1 n1 r2 tag nz by (auto simp: read_record_def Let_def len_def split: if_splits prod.splits)
  have len0: "0 < len" using r2 n2 fread_zero [of len 1 fp1] by (cases "len = 0") auto
  note f2 = fread_ok [OF r2 n2 len0, simplified]
  obtain n3 d3 fp3' where r3: "fread 4 k fp2 = (n3, d3, fp3')" by (cases "fread 4 k fp2") auto
  have n3: "n3 = k" and idx: "idx = idx_array d3" and fp3: "fp3 = fp3'" and nm: "name = d2 @ [0]"
    using assms(1) r1 n1 r2 n2 tag nz r3
    by (auto simp: read_record_def Let_def len_def k_def split: if_splits prod.splits)
  show "tag = le_word (take 2 (drop p bs))" using tag f1 by (simp add: p_def bs_def)
  show "tag \<noteq> VMSS_TAG_NULL" by (rule nz)
  show "0 < len" by (rule len0)
  show "name = take len (drop (p + 2) bs) @ [0]" using nm f2 f1 by (simp add: p_def bs_def add.commute)
  have "p + 2 + len + 4 * k \<le> length bs \<and> idx = idx_array (take (4 * k) (drop (p + 2 + len) bs)) \<and>
      fp3 = fp\<lparr>fp_pos := p + 2 + len + 4 * k,
            fp_reads := fp_reads fp @ (p, 2, 2) # (p + 2, len, len) #
              (if k = 0 then [] else [(p + 2 + len, 4 * k, 4 * k)])\<rparr>"
    proof (cases "k = 0")
      case True
      then have "fread 4 k fp2 = (0, [], fp2)" by (simp add: fread_zero)
      with r3 have "d3 = []" "fp3' = fp2" by auto
      then show ?thesis using True f1 f2 idx fp3 by (simp add: p_def bs_def)
    next
      case False
      then have "0 < k" by simp
      note f3 = fread_ok [OF r3 n3 _ this, simplified]
      show ?thesis using False f1 f2 f3 idx fp3 by (simp add: p_def bs_def add.commute add.left_commute)
    qed
  then show "p + 2 + len + 4 * k \<le> length bs" "idx = idx_array (take (4 * k) (drop (p + 2 + len) bs))"
    "fp3 = fp\<lparr>fp_pos := p + 2 + len + 4 * k,
            fp_reads := fp_reads fp @ (p, 2, 2) # (p + 2, len, len) #
              (if k = 0 then [] else [(p + 2 + len, 4 * k, 4 * k)])\<rparr>"
    by simp_all
qed

lemma read_tag_full:
  assumes "fp_pos fp + 2 \<le> length (fp_bytes fp)"
  shows "fread 2 1 fp = (1, take 2 (drop (fp_pos fp) (fp_bytes fp)),
     fp\<lparr>fp_pos := fp_pos fp + 2, fp_reads := fp_reads fp @ [(fp_pos fp, 2, 2)]\<rparr>)"
  using fread_full [of 2 1 fp] assms by simp

subsection \<open>A block within the range of a \<^verbatim>\<open>long\<close>\<close>

lemma sint_small:
  assumes "unat (w :: 64 word) < 2 ^ 63"
  shows "sint w = int (unat w)"
proof -
  have a: "uint w < 2 ^ 63"
    using assms by (metis of_nat_less_numeral_power_cancel_iff of_nat_unat)
  have b: "- (2 ^ 63) \<le> uint w" by (rule order_trans [of _ 0]) simp_all
  have c: "signed_take_bit 63 (uint w) = uint w"
    using b a by (rule signed_take_bit_int_eq_self)
  have "sint w = signed_take_bit 63 (uint w)" by (simp add: sint_uint)
  then show ?thesis using c by simp
qed

lemma unat_ucast_pad: "unat (ucast (p :: 16 word) :: 64 word) = unat p"
proof -
  have "unat p < 2 ^ 16" using unsigned_less [of p, where ?'a = nat] by simp
  then have "unat p < 2 ^ 64" by simp
  then show ?thesis by (simp add: unsigned_ucast_eq take_bit_nat_eq_self)
qed

lemma skip_block_ok:
  assumes "fp_pos fp + 18 \<le> length (fp_bytes fp)"
    and "S = unat (le_word (take 8 (drop (fp_pos fp) (fp_bytes fp))) :: 64 word)"
    and "P = unat (le_word (take 2 (drop (fp_pos fp + 16) (fp_bytes fp))) :: 16 word)"
    and "fp_pos fp + 18 + S + P < 2 ^ 63"
  shows "skip_block fp = Continue (fp\<lparr>fp_pos := fp_pos fp + 18 + S + P,
      fp_reads := fp_reads fp @ [(fp_pos fp, 16, 16), (fp_pos fp + 16, 2, 2)]\<rparr>)"
proof -
  let ?fp1 = "fp\<lparr>fp_pos := fp_pos fp + 16, fp_reads := fp_reads fp @ [(fp_pos fp, 16, 16)]\<rparr>"
  let ?fp2 = "fp\<lparr>fp_pos := fp_pos fp + 18,
      fp_reads := fp_reads fp @ [(fp_pos fp, 16, 16), (fp_pos fp + 16, 2, 2)]\<rparr>"
  have r1: "fread 16 1 fp = (1, take 16 (drop (fp_pos fp) (fp_bytes fp)), ?fp1)"
    using fread_full [of 16 1 fp] assms(1) by simp
  have r2: "fread 2 1 ?fp1 = (1, take 2 (drop (fp_pos fp + 16) (fp_bytes fp)), ?fp2)"
    using fread_full [of 2 1 ?fp1] assms(1) by simp
  define bsz :: "64 word" where "bsz = le_word (take 8 (drop (fp_pos fp) (fp_bytes fp)))"
  define pad :: "16 word" where "pad = le_word (take 2 (drop (fp_pos fp + 16) (fp_bytes fp)))"
  have sp: "unat bsz + unat (ucast pad :: 64 word) = S + P"
    by (simp add: assms(2,3) bsz_def pad_def unat_ucast_pad)
  have "S + P < 2 ^ 63" using assms(4) by simp
  then have lt: "unat bsz + unat (ucast pad :: 64 word) < 2 ^ 64" using sp by simp
  have u: "unat (bsz + ucast pad) = S + P"
    using lt sp unat_add_lem [of bsz "ucast pad"] by simp
  have si: "sint (bsz + ucast pad) = int (S + P)"
    using sint_small [of "bsz + ucast pad"] u \<open>S + P < 2 ^ 63\<close> by simp
  have sk: "fseek (sint (bsz + ucast pad)) SEEK_CUR ?fp2 =
      Some (?fp2\<lparr>fp_pos := fp_pos fp + 18 + S + P\<rparr>)"
    using assms(4) unfolding si by (simp add: fseek_def LONG_MAX_def Let_def nat_add_distrib)
  have t8: "take 8 (take 16 (drop (fp_pos fp) (fp_bytes fp))) = take 8 (drop (fp_pos fp) (fp_bytes fp))"
    by simp
  show ?thesis
    unfolding skip_block_def r1 Let_def prod.case r2 t8 bsz_def [symmetric] pad_def [symmetric]
    using sk by (simp add: ftell_def)
qed


subsection \<open>Unfolding on concrete bytes\<close>

lemma le_word_Nil: "le_word [] = 0"
  by (simp add: le_word_def)

lemma le_word_Cons: "le_word (b # bs) = ucast b + 256 * le_word bs"
  by (simp add: le_word_def)

lemma le_word_zeros: "le_word (replicate n 0) = 0"
  by (induction n) (simp_all add: le_word_Nil le_word_Cons)

lemmas le_word_simps = le_word_Nil le_word_Cons le_word_zeros

lemma state_upd_chain:
  "fp3 = fp\<lparr>fp_pos := a, fp_reads := r\<rparr> \<Longrightarrow>
   fp3\<lparr>fp_pos := b, fp_reads := fp_reads fp3 @ l\<rparr> = fp\<lparr>fp_pos := b, fp_reads := r @ l\<rparr>"
  by simp

lemma upt_3: "[0..<3] = [0, 1, 2]"
  by (simp add: upt_rec)

lemma idx_array_unfold:
  "idx_array ix =
    [le_word (take 4 (ix @ replicate (12 - length ix) 0)),
     le_word (take 4 (drop 4 (ix @ replicate (12 - length ix) 0))),
     le_word (take 4 (drop 8 (ix @ replicate (12 - length ix) 0)))]"
  by (simp add: idx_array_def nelem_idx_eq upt_3 Let_def)

subsection \<open>The value of \<^verbatim>\<open>pendingNMI\<close>\<close>

lemma fread_bytes_eq: "fread sz n fp = (k, d, fp') \<Longrightarrow> fp_bytes fp' = fp_bytes fp"
  using fread_bytes [of sz n fp] by simp

lemma fseek_bytes_eq: "fseek off wh fp = Some fp' \<Longrightarrow> fp_bytes fp' = fp_bytes fp"
  by (auto simp: fseek_def Let_def split: if_splits)

lemma patch_write:
  assumes "fp_pos fp < length (fp_bytes fp)" and "length (fp_bytes fp) < 2 ^ 63"
    and "idx ! 0 = g_cpu cfg"
  shows "patch cfg idx 1 fp =
    Continue (fp\<lparr>fp_bytes := (fp_bytes fp)[fp_pos fp := g_nmi cfg],
      fp_pos := fp_pos fp + 1,
      fp_reads := fp_reads fp @ [(fp_pos fp, 1, 1)],
      stderr := stderr fp @ [Warn_setting (idx ! 0) (fp_bytes fp ! fp_pos fp) (g_nmi cfg)]\<rparr>)"
proof -
  let ?p = "fp_pos fp" and ?bs = "fp_bytes fp"
  let ?fp1 = "fp\<lparr>fp_pos := ?p + 1, fp_reads := fp_reads fp @ [(?p, 1, 1)]\<rparr>"
  have r: "fread 1 1 fp = (1, take 1 (drop ?p ?bs), ?fp1)"
    using fread_full [of 1 1 fp] assms(1) by simp
  have buf: "take 1 (drop ?p ?bs) = [?bs ! ?p]"
    using assms(1) by (simp add: take_Suc_conv_app_nth [of 0, simplified] hd_drop_conv_nth take_Suc)
  let ?fp2 = "warn (Warn_setting (idx ! 0) (?bs ! ?p) (g_nmi cfg)) ?fp1"
  have sk: "fseek (- 1) SEEK_CUR ?fp2 = Some (?fp2\<lparr>fp_pos := ?p\<rparr>)"
    using assms(1,2) by (simp add: fseek_def warn_def LONG_MAX_def Let_def)
  have upd: "take ?p ?bs @ [g_nmi cfg] @ drop (?p + 1) ?bs = ?bs[?p := g_nmi cfg]"
    using assms(1) by (simp add: upd_conv_take_nth_drop)
  have w: "fwrite [g_nmi cfg] (?fp2\<lparr>fp_pos := ?p\<rparr>) =
      (1, ?fp2\<lparr>fp_bytes := ?bs[?p := g_nmi cfg], fp_pos := ?p + 1\<rparr>)"
    using assms(1) upd by (simp add: fwrite_def warn_def Let_def)
  show ?thesis
    unfolding patch_def r prod.case buf
    using sk w assms(3) by (simp add: sizeof_buf_eq warn_def Let_def)
qed

lemma patch_other:
  assumes "idx ! 0 \<noteq> g_cpu cfg"
  shows "map_option fp_bytes (step_state (patch cfg idx sz fp)) = Some (fp_bytes fp)"
  using assms
  by (auto simp: patch_def warn_def sizeof_buf_eq split: prod.splits dest: fread_bytes_eq)

subsection \<open>No store outside the arrays\<close>

lemma read_record_no_overrun: "read_record fp \<noteq> Inl Overrun"
proof -
  have a: "\<not> sizeof_name < VMSS_TAG_NAMELEN t" "\<not> sizeof_name \<le> VMSS_TAG_NAMELEN t"
    "\<not> nelem_idx < VMSS_TAG_NINDX t" for t
    using namelen_bound [of t] nindx_bound [of t] by (simp_all add: sizeof_name_eq nelem_idx_eq)
  show ?thesis
    by (simp add: read_record_def Let_def a split: prod.split)
qed

lemma skip_block_no_overrun: "skip_block fp \<noteq> Overrun"
  by (simp add: skip_block_def Let_def split: prod.split option.split)

lemma patch_no_overrun: "patch cfg idx sz fp \<noteq> Overrun"
  by (simp add: patch_def Let_def sizeof_buf_eq split: prod.split option.split)

lemma setnmi_body_no_overrun: "setnmi_body cfg fp \<noteq> Overrun"
  using read_record_no_overrun [of fp] skip_block_no_overrun patch_no_overrun
  by (auto simp: setnmi_body_def split: sum.split prod.split option.split)

lemma setnmi_loop_defined: "setnmi_loop n cfg fp \<noteq> Undefined_Behaviour"
  by (induction n arbitrary: fp) (simp_all add: setnmi_body_no_overrun split: step.split)

lemma idx_array_length: "length (idx_array ix) = nelem_idx"
  by (simp add: idx_array_def Let_def)

lemma idx_array_tail:
  assumes "length ix = 4 * k" and "k \<le> 3"
  shows "drop k (idx_array ix) = replicate (nelem_idx - k) 0"
proof -
  from assms(2) consider "k = 0" | "k = 1" | "k = 2" | "k = 3" by linarith
  then show ?thesis
  proof cases
    case 1 then show ?thesis using assms(1)
      by (simp add: idx_array_unfold nelem_idx_eq le_word_zeros numeral_3_eq_3)
  next
    case 2 then show ?thesis using assms(1)
      by (simp add: idx_array_unfold nelem_idx_eq le_word_zeros numeral_2_eq_2)
  next
    case 3 then show ?thesis using assms(1)
      by (simp add: idx_array_unfold nelem_idx_eq le_word_zeros)
  next
    case 4 then show ?thesis using assms(1)
      by (simp add: idx_array_unfold nelem_idx_eq le_word_zeros)
  qed
qed

subsection \<open>The header of the container\<close>

lemma process_header:
  assumes "12 \<le> length bs"
  shows "fread sizeof_vmss_header 1 \<lparr>fp_bytes = bs, fp_pos = 0, fp_reads = [], stderr = []\<rparr> =
    (1, take 12 bs, \<lparr>fp_bytes = bs, fp_pos = 12, fp_reads = [(0, 12, 12)], stderr = []\<rparr>)"
  using fread_full [of 12 1 "\<lparr>fp_bytes = bs, fp_pos = 0, fp_reads = [], stderr = []\<rparr>"] assms
  by (simp add: sizeof_vmss_header_def)

lemma upt_1: "[0..<1] = [0]"
  by simp

subsection \<open>The log of reads along a pass\<close>






lemma warn_no_short [simp]: "no_short_read (warn w fp) = no_short_read fp"
  by (simp add: no_short_read_def warn_def)






lemma setnmi_loop_3: "setnmi_loop 3 cfg fp = setnmi_loop (Suc (Suc (Suc 0))) cfg fp"
  by (simp only: numeral_3_eq_3)

subsection \<open>Running on concrete files\<close>

text \<open>The definitions a run on a concrete file unfolds.\<close>

lemmas tag_defs =
  VMSS_TAG_NAMELEN_def VMSS_TAG_NAMELEN_SHIFT_def VMSS_TAG_NAMELEN_MASK_def
  VMSS_TAG_NINDX_def VMSS_TAG_NINDX_SHIFT_def VMSS_TAG_NINDX_MASK_def
  VMSS_TAG_VALSIZE_def VMSS_TAG_VALSIZE_SHIFT_def VMSS_TAG_VALSIZE_MASK_def
  VMSS_TAG_ISBLOCK_def VMSS_TAG_VALSIZE_BLOCK_def VMSS_TAG_VALSIZE_BLOCK_COMPRESSED_def
  VMSS_TAG_NULL_def

lemmas run_defs =
  setnmi_body_def read_record_def skip_block_def patch_def
  fread_def fseek_def fwrite_def warn_def ftell_def strcmp_def c_str_def
  str_pendingNMI_def str_cpu_def le_word_simps idx_array_unfold
  nelem_idx_eq sizeof_name_eq sizeof_buf_eq LONG_MAX_def Let_def stream_at_def
  initial_config_def tag_defs

subsection \<open>The tag header codec\<close>

text \<open>
  C6. For every 16-bit tag code \<open>t\<close> the macros take \<open>t\<close> apart into the name length
  (bits 8--15, so 0--255), the number of indices (bits 6--7, so 0--3) and the value size
  code (bits 0--5, so 0--63); the three fields together are \<open>t\<close> again, and a tag is a
  block exactly when its value size code is 62 (compressed block) or 63 (block). The
  macros are total functions of the tag and have no error case.
\<close>

theorem tag_codec_decomposition:
  "VMSS_TAG_NAMELEN t = unat t div 256 \<and>
   VMSS_TAG_NINDX t = unat t div 64 mod 4 \<and>
   VMSS_TAG_VALSIZE t = unat t mod 64 \<and>
   VMSS_TAG_NAMELEN t \<le> 255 \<and> VMSS_TAG_NINDX t \<le> 3 \<and> VMSS_TAG_VALSIZE t \<le> 63 \<and>
   unat t = 256 * VMSS_TAG_NAMELEN t + 64 * VMSS_TAG_NINDX t + VMSS_TAG_VALSIZE t \<and>
   VMSS_TAG_ISBLOCK t = (VMSS_TAG_VALSIZE t = 62 \<or> VMSS_TAG_VALSIZE t = 63) \<and>
   VMSS_TAG_VALSIZE_BLOCK_COMPRESSED = 62 \<and> VMSS_TAG_VALSIZE_BLOCK = 63"
proof -
  have "unat t = 256 * VMSS_TAG_NAMELEN t + 64 * VMSS_TAG_NINDX t + VMSS_TAG_VALSIZE t"
    unfolding namelen_eq nindx_eq valsize_eq by (rule recompose)
  moreover have "VMSS_TAG_ISBLOCK t = (VMSS_TAG_VALSIZE t = 62 \<or> VMSS_TAG_VALSIZE t = 63)"
    by (simp add: VMSS_TAG_ISBLOCK_def VMSS_TAG_VALSIZE_BLOCK_COMPRESSED_def
        VMSS_TAG_VALSIZE_BLOCK_def)
  ultimately show ?thesis
    using namelen_bound [of t] nindx_bound [of t] valsize_bound [of t]
    by (simp add: namelen_eq nindx_eq valsize_eq VMSS_TAG_VALSIZE_BLOCK_COMPRESSED_def
        VMSS_TAG_VALSIZE_BLOCK_def)
qed

theorem tag_codec_decomposition_witness:
  "VMSS_TAG_NAMELEN 0x0A41 = 10 \<and> VMSS_TAG_NINDX 0x0A41 = 1 \<and> VMSS_TAG_VALSIZE 0x0A41 = 1 \<and>
   VMSS_TAG_ISBLOCK 0x0A41 = False \<and> VMSS_TAG_ISBLOCK 0x013F = True"
  using tag_codec_decomposition [of "0x0A41"] tag_codec_decomposition [of "0x013F"]
  by simp

subsection \<open>The record scanner\<close>

text \<open>
  C5. When the two bytes at the cursor are there and read as the tag code zero, the loop
  of \<^verbatim>\<open>setnmi\<close> ends at once and \<^verbatim>\<open>setnmi\<close> returns, with the cursor just
  behind the terminator and nothing else read. The declared size of the group plays no
  part: \<^verbatim>\<open>setnmi\<close> gives the same outcome whatever the size field holds.
\<close>

theorem terminator_ends_stream:
  assumes "fp_pos fp + 2 \<le> length (fp_bytes fp)"
    and "(le_word (take 2 (drop (fp_pos fp) (fp_bytes fp))) :: vmss_tag_t) = VMSS_TAG_NULL"
  shows "setnmi_loop (Suc n) cfg fp =
      Returned (fp\<lparr>fp_pos := fp_pos fp + 2, fp_reads := fp_reads fp @ [(fp_pos fp, 2, 2)]\<rparr>) \<and>
    setnmi fuel cfg fp0 (grp\<lparr>vmss_group_size := s\<rparr>) = setnmi fuel cfg fp0 grp"
proof -
  have "read_record fp =
      Inl (Break (fp\<lparr>fp_pos := fp_pos fp + 2, fp_reads := fp_reads fp @ [(fp_pos fp, 2, 2)]\<rparr>))"
    unfolding read_record_def read_tag_full [OF assms(1)] using assms(2) by simp
  then show ?thesis by (simp add: setnmi_body_def setnmi_def split: option.split)
qed

theorem terminator_ends_stream_witness:
  "setnmi_loop 1 initial_config (stream_at example_file 118) =
     Returned \<lparr>fp_bytes = example_file, fp_pos = 120, fp_reads = [(118, 2, 2)], stderr = []\<rparr>"
  using terminator_ends_stream [of "stream_at example_file 118" 0 initial_config]
  by (simp add: stream_at_def example_file_def example_header_def le_word_simps VMSS_TAG_NULL_def)

text \<open>
  C9. A tag that is not the terminator and whose name length is zero ends the run at the
  read of the name: \<^verbatim>\<open>fread\<close> of an item of size zero returns zero, which the code
  takes for a failure, although the only read of the pass, that of the two bytes of the
  tag, was delivered in full.
\<close>

theorem zero_name_length_is_fatal:
  assumes "fp_pos fp + 2 \<le> length (fp_bytes fp)"
    and "tag = (le_word (take 2 (drop (fp_pos fp) (fp_bytes fp))) :: vmss_tag_t)"
    and "tag \<noteq> VMSS_TAG_NULL" and "VMSS_TAG_NAMELEN tag = 0"
  shows "setnmi_loop (Suc n) cfg fp =
      Exited (CantReadName (fp_pos fp + 2))
        (fp\<lparr>fp_pos := fp_pos fp + 2, fp_reads := fp_reads fp @ [(fp_pos fp, 2, 2)]\<rparr>) \<and>
    class_of (CantReadName (fp_pos fp + 2)) = IOError \<and>
    \<not> short_read (fp_pos fp, 2, 2)"
proof -
  have "read_record fp =
      Inl (Exit (CantReadName (fp_pos fp + 2))
        (fp\<lparr>fp_pos := fp_pos fp + 2, fp_reads := fp_reads fp @ [(fp_pos fp, 2, 2)]\<rparr>))"
    unfolding read_record_def read_tag_full [OF assms(1)] using assms(2,3,4)
    by (simp add: fread_zero ftell_def Let_def)
  then show ?thesis by (simp add: setnmi_body_def)
qed

theorem zero_name_length_is_fatal_witness:
  "setnmi_loop 1 initial_config (stream_at [0x01, 0x00, 0x07, 0, 0] 0) =
     Exited (CantReadName 2)
       \<lparr>fp_bytes = [0x01, 0x00, 0x07, 0, 0], fp_pos = 2, fp_reads = [(0, 2, 2)], stderr = []\<rparr>"
  using zero_name_length_is_fatal [of "stream_at [0x01, 0x00, 0x07, 0, 0] 0" "0x0001" 0 initial_config]
  by (simp add: stream_at_def le_word_simps tag_defs)



text \<open>Beyond 32 bits the diagnostics of \<^verbatim>\<open>setnmi\<close> print the low 32 bits of the offset
  they are given, the one of line 155 prints all of it.\<close>

lemma printed_offset_wraps:
  "offset_of (CantReadTag 4294967312) = Some 4294967312 \<and>
   printed_offset (CantReadTag 4294967312) = Some 16 \<and>
   printed_offset (CantReadGroup nm 4294967312) = Some 4294967312"
  by simp




text \<open>
  The loop need not end: on the stream whose block size is \<open>-21\<close> as a \<^verbatim>\<open>long\<close> every
  pass seeks back to the tag it started from, and the loop is still running whatever the
  fuel.
\<close>

lemma looping_pass:
  assumes "fp_bytes fp = looping_stream" and "fp_pos fp = 0"
  shows "\<exists>fp'. setnmi_body cfg fp = Continue fp' \<and> fp_bytes fp' = looping_stream \<and> fp_pos fp' = 0"
  using assms by (simp add: run_defs looping_stream_def)

lemma loop_can_run_forever:
  assumes "fp_bytes fp = looping_stream" and "fp_pos fp = 0"
  shows "\<exists>fp'. setnmi_loop n cfg fp = Running fp'"
  using assms
proof (induction n arbitrary: fp)
  case 0
  then show ?case by simp
next
  case (Suc n)
  from looping_pass [OF Suc.prems] obtain fp1 where
    "setnmi_body cfg fp = Continue fp1" "fp_bytes fp1 = looping_stream" "fp_pos fp1 = 0"
    by blast
  with Suc.IH [of fp1] show ?case by simp
qed

subsection \<open>The block skipper\<close>

text \<open>
  C4, as amended. For a block-coded tag whose 18 header bytes are in the file, with
  declared size \<open>S\<close> and pad \<open>P\<close>, provided the end of the block \<open>offs + 18 + S + P\<close>
  is an offset a \<^verbatim>\<open>long\<close> can hold (below \<open>2\<^sup>6\<^sup>3\<close>): the pass leaves the cursor at
  \<open>offs + 18 + S + P\<close>, where \<open>offs\<close> is the cursor before the block header, and the
  file is unchanged. The reads of the tag, the name and the indices end at or before
  \<open>offs\<close>; after them the pass reads the 16 bytes of the size and the memory size at
  \<open>offs\<close> and the 2 bytes of the pad at \<open>offs + 16\<close>, and nothing else: no byte of the
  payload is read.
\<close>

theorem block_skip_cursor:
  assumes "read_record fp = Inr (tag, name, idx, fp3)" and "VMSS_TAG_ISBLOCK tag"
    and "offs = fp_pos fp3"
    and "offs + 18 \<le> length (fp_bytes fp)"
    and "S = unat (le_word (take 8 (drop offs (fp_bytes fp))) :: 64 word)"
    and "P = unat (le_word (take 2 (drop (offs + 16) (fp_bytes fp))) :: 16 word)"
    and "offs + 18 + S + P < 2 ^ 63"
  shows "offs = fp_pos fp + 2 + VMSS_TAG_NAMELEN tag + 4 * VMSS_TAG_NINDX tag \<and>
    setnmi_body cfg fp =
      Continue (fp3\<lparr>fp_pos := offs + 18 + S + P,
        fp_reads := fp_reads fp3 @ [(offs, 16, 16), (offs + 16, 2, 2)]\<rparr>) \<and>
    fp_bytes fp3 = fp_bytes fp \<and>
    (\<exists>hdr. fp_reads fp3 = fp_reads fp @ hdr \<and>
       list_all (\<lambda>(off, req, got). off + got \<le> offs) hdr)"
proof -
  note rr = read_record_Inr [OF assms(1)]
  have b3: "fp_bytes fp3 = fp_bytes fp" and p3: "fp_pos fp3 = offs" using rr(7) assms(3) by simp_all
  have offs: "offs = fp_pos fp + 2 + VMSS_TAG_NAMELEN tag + 4 * VMSS_TAG_NINDX tag"
    using rr(7) assms(3) by simp
  have sk: "skip_block fp3 = Continue (fp3\<lparr>fp_pos := fp_pos fp3 + 18 + S + P,
      fp_reads := fp_reads fp3 @ [(fp_pos fp3, 16, 16), (fp_pos fp3 + 16, 2, 2)]\<rparr>)"
  proof (rule skip_block_ok)
    show "fp_pos fp3 + 18 \<le> length (fp_bytes fp3)" unfolding b3 p3 by (rule assms(4))
    show "S = unat (le_word (take 8 (drop (fp_pos fp3) (fp_bytes fp3))) :: 64 word)"
      unfolding b3 p3 by (rule assms(5))
    show "P = unat (le_word (take 2 (drop (fp_pos fp3 + 16) (fp_bytes fp3))) :: 16 word)"
      unfolding b3 p3 by (rule assms(6))
    show "fp_pos fp3 + 18 + S + P < 2 ^ 63" unfolding p3 by (rule assms(7))
  qed
  have body: "setnmi_body cfg fp = skip_block fp3"
    by (simp add: setnmi_body_def assms(1,2))
  let ?hdr = "(fp_pos fp, 2, 2) # (fp_pos fp + 2, VMSS_TAG_NAMELEN tag, VMSS_TAG_NAMELEN tag) #
      (if VMSS_TAG_NINDX tag = 0 then []
       else [(fp_pos fp + 2 + VMSS_TAG_NAMELEN tag, 4 * VMSS_TAG_NINDX tag, 4 * VMSS_TAG_NINDX tag)])"
  have "fp_reads fp3 = fp_reads fp @ ?hdr" by (subst rr(7)) simp
  moreover have "list_all (\<lambda>(off, req, got). off + got \<le> offs) ?hdr"
    by (simp add: offs)
  ultimately have "\<exists>hdr. fp_reads fp3 = fp_reads fp @ hdr \<and>
       list_all (\<lambda>(off, req, got). off + got \<le> offs) hdr"
    by blast
  then show ?thesis using offs b3 unfolding body sk p3 by simp
qed

theorem block_skip_cursor_witness:
  "setnmi_body initial_config (stream_at block_stream 0) =
     Continue \<lparr>fp_bytes = block_stream, fp_pos = 3 + 18 + 4 + 2,
       fp_reads = [(0, 2, 2), (2, 1, 1), (3, 16, 16), (3 + 16, 2, 2)], stderr = []\<rparr>"
proof -
  let ?fp3 = "\<lparr>fp_bytes = block_stream, fp_pos = 3, fp_reads = [(0, 2, 2), (2, 1, 1)],
    stderr = []\<rparr>"
  have rr: "read_record (stream_at block_stream 0) = Inr (0x013f, [0x61, 0], [0, 0, 0], ?fp3)"
    by (simp add: run_defs block_stream_def)
  have blk: "VMSS_TAG_ISBLOCK 0x013f" by (simp add: tag_defs)
  have offs: "3 = fp_pos ?fp3" by simp
  have len: "3 + 18 \<le> length (fp_bytes (stream_at block_stream 0))"
    by (simp add: stream_at_def block_stream_def)
  have S: "4 = unat (le_word (take 8 (drop 3 (fp_bytes (stream_at block_stream 0)))) :: 64 word)"
    by (simp add: stream_at_def block_stream_def le_word_simps)
  have P: "2 = unat (le_word (take 2 (drop (3 + 16) (fp_bytes (stream_at block_stream 0)))) :: 16 word)"
    by (simp add: stream_at_def block_stream_def le_word_simps)
  have bound: "(3::nat) + 18 + 4 + 2 < 2 ^ 63" by simp
  from block_skip_cursor [OF rr blk offs len S P bound, of initial_config]
  have "setnmi_body initial_config (stream_at block_stream 0) =
      Continue (?fp3\<lparr>fp_pos := 3 + 18 + 4 + 2,
        fp_reads := fp_reads ?fp3 @ [(3, 16, 16), (3 + 16, 2, 2)]\<rparr>)"
    by blast
  then show ?thesis by simp
qed

text \<open>
  C4 as stated fails: a size field of \<open>2\<^sup>6\<^sup>4 - 1\<close> is \<open>-1\<close> as the \<^verbatim>\<open>long\<close> that
  \<^verbatim>\<open>fseek\<close> takes, and the cursor ends at \<open>offs + 17\<close>.
\<close>

theorem block_skip_cursor_counterexample:
  "VMSS_TAG_ISBLOCK 0x013f \<and>
   read_record (stream_at huge_block_stream 0) =
     Inr (0x013f, [0x61, 0], [0, 0, 0],
       \<lparr>fp_bytes = huge_block_stream, fp_pos = 3, fp_reads = [(0, 2, 2), (2, 1, 1)],
        stderr = []\<rparr>) \<and>
   unat (le_word (take 8 (drop 3 huge_block_stream)) :: 64 word) = 18446744073709551615 \<and>
   unat (le_word (take 2 (drop 19 huge_block_stream)) :: 16 word) = 0 \<and>
   setnmi_body initial_config (stream_at huge_block_stream 0) =
     Continue
       \<lparr>fp_bytes = huge_block_stream, fp_pos = 20,
        fp_reads = [(0, 2, 2), (2, 1, 1), (3, 16, 16), (19, 2, 2)], stderr = []\<rparr> \<and>
   (20 :: nat) \<noteq> 3 + 18 + 18446744073709551615 + 0"
  by (simp add: run_defs huge_block_stream_def)

subsection \<open>The patch engine\<close>

text \<open>
  C3, as amended. For a record named \<^verbatim>\<open>pendingNMI\<close> that is not block-coded (value
  size code 0--61): when the value size is not 1 the run ends with the diagnostic of the
  unexpected size, a SchemaViolation, at the state the header left, the file unchanged.
\<close>

theorem wrong_size_is_schema_violation:
  assumes "read_record fp = Inr (tag, name, idx, fp3)"
    and "\<not> VMSS_TAG_ISBLOCK tag" and "strcmp name str_pendingNMI = 0"
    and "VMSS_TAG_VALSIZE tag \<noteq> 1"
  shows "setnmi_loop (Suc n) cfg fp = Exited (UnexpectedSize (VMSS_TAG_VALSIZE tag)) fp3 \<and>
    class_of (UnexpectedSize (VMSS_TAG_VALSIZE tag)) = SchemaViolation \<and>
    fp_bytes fp3 = fp_bytes fp"
proof -
  have "setnmi_body cfg fp = Exit (UnexpectedSize (VMSS_TAG_VALSIZE tag)) fp3"
    using assms(4) by (simp add: setnmi_body_def patch_def assms(1,2,3))
  moreover have "fp_bytes fp3 = fp_bytes fp"
    using read_record_Inr(7) [OF assms(1)] by simp
  ultimately show ?thesis by simp
qed

theorem wrong_size_is_schema_violation_witness:
  "setnmi_loop 1 initial_config (stream_at wide_pendingNMI 0) =
     Exited (UnexpectedSize 2)
       \<lparr>fp_bytes = wide_pendingNMI, fp_pos = 12, fp_reads = [(0, 2, 2), (2, 10, 10)],
        stderr = []\<rparr> \<and>
   class_of (UnexpectedSize 2) = SchemaViolation"
  using wrong_size_is_schema_violation [of "stream_at wide_pendingNMI 0" "0x0a02"
      "map of_char ''pendingNMI'' @ [0]" "[0, 0, 0]"
      "\<lparr>fp_bytes = wide_pendingNMI, fp_pos = 12, fp_reads = [(0, 2, 2), (2, 10, 10)],
        stderr = []\<rparr>" 0 initial_config]
  by (simp add: run_defs wide_pendingNMI_def)

text \<open>
  C3 as stated fails: a record named \<^verbatim>\<open>pendingNMI\<close> whose value size code is 63 is
  taken for a block and skipped, and the run returns without a diagnostic.
\<close>

theorem wrong_size_is_schema_violation_counterexample:
  "read_record (stream_at block_named_pendingNMI 0) =
     Inr (0x0a3f, map of_char ''pendingNMI'' @ [0], [0, 0, 0],
       \<lparr>fp_bytes = block_named_pendingNMI, fp_pos = 12, fp_reads = [(0, 2, 2), (2, 10, 10)],
        stderr = []\<rparr>) \<and>
   strcmp (map of_char ''pendingNMI'' @ [0]) str_pendingNMI = 0 \<and>
   VMSS_TAG_VALSIZE 0x0a3f = 63 \<and>
   setnmi_loop 2 initial_config (stream_at block_named_pendingNMI 0) =
     Returned
       \<lparr>fp_bytes = block_named_pendingNMI, fp_pos = 32,
        fp_reads = [(0, 2, 2), (2, 10, 10), (12, 16, 16), (28, 2, 2), (30, 2, 2)],
        stderr = []\<rparr>"
proof -
  let ?fp1 = "\<lparr>fp_bytes = block_named_pendingNMI, fp_pos = 30,
        fp_reads = [(0, 2, 2), (2, 10, 10), (12, 16, 16), (28, 2, 2)], stderr = []\<rparr>"
  let ?fp2 = "\<lparr>fp_bytes = block_named_pendingNMI, fp_pos = 32,
        fp_reads = [(0, 2, 2), (2, 10, 10), (12, 16, 16), (28, 2, 2), (30, 2, 2)],
        stderr = []\<rparr>"
  have rr: "read_record (stream_at block_named_pendingNMI 0) =
     Inr (0x0a3f, map of_char ''pendingNMI'' @ [0], [0, 0, 0],
       \<lparr>fp_bytes = block_named_pendingNMI, fp_pos = 12, fp_reads = [(0, 2, 2), (2, 10, 10)],
        stderr = []\<rparr>)"
    by (simp add: run_defs block_named_pendingNMI_def)
  have nm: "strcmp (map of_char ''pendingNMI'' @ [0]) str_pendingNMI = 0"
    by (simp add: strcmp_def c_str_def str_pendingNMI_def)
  have vs: "VMSS_TAG_VALSIZE 0x0a3f = 63" by (simp add: tag_defs)
  have b1: "setnmi_body initial_config (stream_at block_named_pendingNMI 0) = Continue ?fp1"
    by (simp add: run_defs block_named_pendingNMI_def)
  have b2: "setnmi_body initial_config ?fp1 = Break ?fp2"
    by (simp add: run_defs block_named_pendingNMI_def)
  have "setnmi_loop (Suc (Suc 0)) initial_config (stream_at block_named_pendingNMI 0) =
      Returned ?fp2"
    by (simp add: b1 b2)
  then have "setnmi_loop 2 initial_config (stream_at block_named_pendingNMI 0) = Returned ?fp2"
    by (simp only: numeral_2_eq_2)
  with rr nm vs show ?thesis by blast
qed

text \<open>
  The frame of a pass, in any mode: a pass leaves the file as it is, unless it is at a
  record named \<^verbatim>\<open>pendingNMI\<close>, not block-coded, of value size 1, whose index 0 equals
  \<^verbatim>\<open>g_cpu\<close> as an unsigned number; then it rewrites the value byte and nothing else.
  With \<^verbatim>\<open>g_cpu\<close> at \<open>-1\<close> the index of such a record is \<open>0xffffffff\<close>.
\<close>

lemma skip_block_bytes:
  "step_state (skip_block fp) = Some fp' \<Longrightarrow> fp_bytes fp' = fp_bytes fp"
  by (auto simp: skip_block_def Let_def split: prod.splits if_splits option.splits
      dest!: fread_bytes_eq fseek_bytes_eq)

lemma patch_frame:
  assumes "step_state (patch cfg idx sz fp) = Some fp'"
  shows "fp_bytes fp' = fp_bytes fp \<or>
    (sz = 1 \<and> idx ! 0 = g_cpu cfg \<and> fp_pos fp < length (fp_bytes fp) \<and>
     fp_bytes fp' = (fp_bytes fp)[fp_pos fp := g_nmi cfg])"
proof (cases "idx ! 0 = g_cpu cfg")
  case False
  then show ?thesis using patch_other [of idx cfg sz fp] assms by simp
next
  case eq: True
  show ?thesis
  proof (cases "sz = 1")
    case False
    then show ?thesis using assms by (simp add: patch_def)
  next
    case sz: True
    obtain n buf fp1 where r: "fread 1 1 fp = (n, buf, fp1)" by (cases "fread 1 1 fp") auto
    show ?thesis
    proof (cases "n = 1")
      case False
      then show ?thesis using assms r sz fread_bytes_eq [OF r]
        by (simp add: patch_def sizeof_buf_eq)
    next
      case n: True
      note f = fread_ok [OF r n, simplified]
      have lt: "fp_pos fp < length (fp_bytes fp)" using f by simp
      have buf: "buf = [fp_bytes fp ! fp_pos fp]"
        using f lt by (simp add: take_Suc_conv_app_nth [of 0, simplified] hd_drop_conv_nth take_Suc)
      let ?fp2 = "warn (Warn_setting (idx ! 0) (buf ! 0) (g_nmi cfg)) fp1"
      show ?thesis
      proof (cases "fseek (- 1) SEEK_CUR ?fp2")
        case None
        then show ?thesis using assms r n sz eq f
          by (auto simp: patch_def sizeof_buf_eq Let_def warn_def)
      next
        case (Some fp3)
        have p3: "fp_pos fp3 = fp_pos fp" and b3: "fp_bytes fp3 = fp_bytes fp"
          using Some f by (auto simp: fseek_def Let_def warn_def split: if_splits)
        have upd: "take (fp_pos fp) (fp_bytes fp) @ [g_nmi cfg] @ drop (fp_pos fp + 1) (fp_bytes fp) =
            (fp_bytes fp)[fp_pos fp := g_nmi cfg]"
          using lt by (simp add: upd_conv_take_nth_drop)
        have w: "fp_bytes (snd (fwrite [g_nmi cfg] fp3)) = (fp_bytes fp)[fp_pos fp := g_nmi cfg]"
          using lt upd by (simp add: fwrite_def Let_def p3 b3)
        have "patch cfg idx 1 fp = Continue (snd (fwrite [g_nmi cfg] fp3))"
          using r n eq Some buf
          by (simp add: patch_def sizeof_buf_eq Let_def fwrite_def split: prod.split)
        then show ?thesis using assms sz eq lt w by simp
      qed
    qed
  qed
qed

lemma pass_frame:
  assumes "step_state (setnmi_body cfg fp) = Some fp'"
  shows "fp_bytes fp' = fp_bytes fp \<or>
    (\<exists>tag name idx fp3. read_record fp = Inr (tag, name, idx, fp3) \<and>
       \<not> VMSS_TAG_ISBLOCK tag \<and> strcmp name str_pendingNMI = 0 \<and>
       VMSS_TAG_VALSIZE tag = 1 \<and> idx ! 0 = g_cpu cfg \<and>
       fp_pos fp3 < length (fp_bytes fp) \<and>
       fp_bytes fp' = (fp_bytes fp)[fp_pos fp3 := g_nmi cfg])"
proof (cases "read_record fp")
  case (Inl s)
  have "fp_bytes fp' = fp_bytes fp"
    using assms Inl
    by (auto simp: setnmi_body_def read_record_def Let_def split: prod.splits if_splits
        dest!: fread_bytes_eq)
  then show ?thesis by simp
next
  case (Inr r)
  obtain tag name idx fp3 where r: "r = (tag, name, idx, fp3)" by (cases r) auto
  have b3: "fp_bytes fp3 = fp_bytes fp" using read_record_Inr(7) [OF Inr [unfolded r]] by simp
  show ?thesis
  proof (cases "VMSS_TAG_ISBLOCK tag")
    case True
    then show ?thesis using assms Inr r skip_block_bytes [of fp3 fp'] b3
      by (simp add: setnmi_body_def)
  next
    case nb: False
    show ?thesis
    proof (cases "strcmp name str_pendingNMI = 0")
      case False
      then show ?thesis using assms Inr r nb b3
        by (auto simp: setnmi_body_def split: option.splits dest!: fseek_bytes_eq)
    next
      case True
      then have "step_state (patch cfg idx (VMSS_TAG_VALSIZE tag) fp3) = Some fp'"
        using assms Inr r nb by (simp add: setnmi_body_def)
      from patch_frame [OF this] show ?thesis using Inr r nb True b3 by auto
    qed
  qed
qed

lemma query_pass_frame:
  assumes "g_cpu cfg = - 1" and "step_state (setnmi_body cfg fp) = Some fp'"
    and "fp_bytes fp' \<noteq> fp_bytes fp"
  shows "\<exists>tag name idx fp3. read_record fp = Inr (tag, name, idx, fp3) \<and> idx ! 0 = 0xffffffff"
  using pass_frame [OF assms(2)] assms(1,3) by auto

text \<open>
  A pass at a record named \<^verbatim>\<open>pendingNMI\<close> that is not block-coded, in a file shorter
  than \<open>2\<^sup>6\<^sup>3\<close> bytes: when index 0 is \<^verbatim>\<open>g_cpu\<close>, the value size is 1 and the value byte
  is in the file, the pass rewrites the byte at the offset of the value, just behind the
  tag, the name and the indices, to \<^verbatim>\<open>g_nmi\<close> and leaves every other byte as it was;
  when index 0 is another CPU, the file after the pass is the file before it.
\<close>

lemma pass_at_record:
  assumes "read_record fp = Inr (tag, name, idx, fp3)"
    and "\<not> VMSS_TAG_ISBLOCK tag" and "strcmp name str_pendingNMI = 0"
    and "0 \<le> sint (g_cpu cfg)"
    and "length (fp_bytes fp) < 2 ^ 63"
    and "off = fp_pos fp + 2 + VMSS_TAG_NAMELEN tag + 4 * VMSS_TAG_NINDX tag"
  shows "(idx ! 0 = g_cpu cfg \<and> VMSS_TAG_VALSIZE tag = 1 \<and> off < length (fp_bytes fp) \<longrightarrow>
      setnmi_body cfg fp =
        Continue (fp3\<lparr>fp_bytes := (fp_bytes fp)[off := g_nmi cfg],
          fp_pos := off + 1,
          fp_reads := fp_reads fp3 @ [(off, 1, 1)],
          stderr := stderr fp @ [Warn_setting (g_cpu cfg) (fp_bytes fp ! off) (g_nmi cfg)]\<rparr>)) \<and>
    (idx ! 0 \<noteq> g_cpu cfg \<longrightarrow>
      map_option fp_bytes (step_state (setnmi_body cfg fp)) = Some (fp_bytes fp))"
proof -
  note rr = read_record_Inr [OF assms(1)]
  have b3: "fp_bytes fp3 = fp_bytes fp" and p3: "fp_pos fp3 = off" and e3: "stderr fp3 = stderr fp"
    using rr(7) assms(6) by simp_all
  have body: "setnmi_body cfg fp = patch cfg idx (VMSS_TAG_VALSIZE tag) fp3"
    by (simp add: setnmi_body_def assms(1,2,3))
  show ?thesis
  proof (intro conjI impI)
    assume a: "idx ! 0 = g_cpu cfg \<and> VMSS_TAG_VALSIZE tag = 1 \<and> off < length (fp_bytes fp)"
    have "patch cfg idx 1 fp3 =
      Continue (fp3\<lparr>fp_bytes := (fp_bytes fp3)[fp_pos fp3 := g_nmi cfg],
        fp_pos := fp_pos fp3 + 1,
        fp_reads := fp_reads fp3 @ [(fp_pos fp3, 1, 1)],
        stderr := stderr fp3 @ [Warn_setting (idx ! 0) (fp_bytes fp3 ! fp_pos fp3) (g_nmi cfg)]\<rparr>)"
      by (rule patch_write) (use a assms(5) in \<open>simp_all add: b3 p3\<close>)
    then show "setnmi_body cfg fp =
        Continue (fp3\<lparr>fp_bytes := (fp_bytes fp)[off := g_nmi cfg],
          fp_pos := off + 1,
          fp_reads := fp_reads fp3 @ [(off, 1, 1)],
          stderr := stderr fp @ [Warn_setting (g_cpu cfg) (fp_bytes fp ! off) (g_nmi cfg)]\<rparr>)"
      using a by (simp add: body b3 p3 e3)
  next
    assume "idx ! 0 \<noteq> g_cpu cfg"
    then show "map_option fp_bytes (step_state (setnmi_body cfg fp)) = Some (fp_bytes fp)"
      unfolding body using patch_other [of idx cfg "VMSS_TAG_VALSIZE tag" fp3] by (simp add: b3)
  qed
qed

subsection \<open>The frame of a run\<close>













text \<open>
  The states listed for the loop are those of its run: the first is the state the loop
  starts in, each pass continues into the next state, and the last pass ends in the state
  of the outcome.
\<close>

lemma setnmi_passes_run:
  assumes "outcome_state (setnmi_loop (Suc n) cfg fp) = Some fp'"
    and "ps = setnmi_passes (Suc n) cfg fp"
  shows "ps \<noteq> [] \<and> hd ps = fp \<and>
    (\<forall>i. Suc i < length ps \<longrightarrow> setnmi_body cfg (ps ! i) = Continue (ps ! Suc i)) \<and>
    step_state (setnmi_body cfg (last ps)) = Some fp'"
  using assms
proof (induction n arbitrary: fp ps)
  case 0
  then show ?case by (cases "setnmi_body cfg fp") simp_all
next
  case (Suc n)
  show ?case
  proof (cases "setnmi_body cfg fp")
    case (Continue fp1)
    let ?qs = "setnmi_passes (Suc n) cfg fp1"
    have o: "outcome_state (setnmi_loop (Suc n) cfg fp1) = Some fp'"
      using Suc.prems(1) Continue by simp
    note ih = Suc.IH [OF o refl]
    have ps: "ps = fp # ?qs" using Suc.prems(2) Continue by simp
    have q0: "?qs ! 0 = fp1" using ih by (simp add: hd_conv_nth)
    have ch: "setnmi_body cfg (ps ! i) = Continue (ps ! Suc i)" if "Suc i < length ps" for i
    proof (cases i)
      case 0
      then show ?thesis using ps Continue q0 by simp
    next
      case (Suc j)
      then show ?thesis using ps that ih by simp
    qed
    have "last ps = last ?qs" using ps ih by simp
    then show ?thesis using ps ih ch by simp
  next
    case (Break fp1)
    then show ?thesis using Suc.prems by simp
  next
    case (Exit e fp1)
    then show ?thesis using Suc.prems by simp
  next
    case Overrun
    then show ?thesis using Suc.prems by simp
  qed
qed









subsection \<open>The automatic arrays\<close>

text \<open>
  C10. No pass of the loop stores outside \<^verbatim>\<open>name\<close>, \<^verbatim>\<open>idx\<close> or \<^verbatim>\<open>buf\<close>:
  the name of at most 255 bytes and its NUL fit the 256 bytes of \<^verbatim>\<open>name\<close>, the
  indices read are at most the 3 entries of \<^verbatim>\<open>idx\<close>, and the entries of \<^verbatim>\<open>idx\<close>
  that the read does not fill are zero.
\<close>

theorem buffers_in_bounds:
  "setnmi_body cfg fp \<noteq> Overrun \<and> setnmi_loop n cfg fp \<noteq> Undefined_Behaviour \<and>
   sizeof_name = 256 \<and> VMSS_TAG_NAMELEN t + 1 \<le> sizeof_name \<and>
   nelem_idx = 3 \<and> VMSS_TAG_NINDX t \<le> nelem_idx \<and>
   (read_record fp = Inr (tag, name, idx, fp3) \<longrightarrow>
      length name = VMSS_TAG_NAMELEN tag + 1 \<and> last name = 0 \<and>
      length idx = nelem_idx \<and>
      drop (VMSS_TAG_NINDX tag) idx = replicate (nelem_idx - VMSS_TAG_NINDX tag) 0)"
proof -
  have "length name = VMSS_TAG_NAMELEN tag + 1 \<and> last name = 0 \<and> length idx = nelem_idx \<and>
      drop (VMSS_TAG_NINDX tag) idx = replicate (nelem_idx - VMSS_TAG_NINDX tag) 0"
    if rr: "read_record fp = Inr (tag, name, idx, fp3)"
  proof -
    note r = read_record_Inr [OF rr]
    have "length (take (4 * VMSS_TAG_NINDX tag)
        (drop (fp_pos fp + 2 + VMSS_TAG_NAMELEN tag) (fp_bytes fp))) = 4 * VMSS_TAG_NINDX tag"
      using r(4) by simp
    then have "drop (VMSS_TAG_NINDX tag) idx = replicate (nelem_idx - VMSS_TAG_NINDX tag) 0"
      unfolding r(6) using nindx_bound [of tag] by (rule idx_array_tail)
    moreover have "length name = VMSS_TAG_NAMELEN tag + 1" using r(4) unfolding r(5) by simp
    moreover have "last name = 0" unfolding r(5) by simp
    moreover have "length idx = nelem_idx" unfolding r(6) by (rule idx_array_length)
    ultimately show ?thesis by simp
  qed
  then show ?thesis
    using setnmi_body_no_overrun [of cfg fp] setnmi_loop_defined [of n cfg fp]
      namelen_bound [of t] nindx_bound [of t]
    by (simp add: sizeof_name_eq nelem_idx_eq)
qed

theorem buffers_in_bounds_witness:
  "setnmi_body initial_config (stream_at all_ones_file 92) \<noteq> Overrun \<and>
   VMSS_TAG_NAMELEN 0xffff + 1 \<le> sizeof_name \<and> VMSS_TAG_NINDX 0xffff \<le> nelem_idx \<and>
   length (map of_char ''pendingNMI'' @ [0 :: byte]) = VMSS_TAG_NAMELEN 0x0a41 + 1 \<and>
   length [0xffffffff, 0, 0 :: vmss_index_t] = nelem_idx \<and>
   drop (VMSS_TAG_NINDX 0x0a41) [0xffffffff, 0, 0 :: vmss_index_t] =
     replicate (nelem_idx - VMSS_TAG_NINDX 0x0a41) 0"
proof -
  have rr: "read_record (stream_at all_ones_file 92) =
      Inr (0x0a41, map of_char ''pendingNMI'' @ [0], [0xffffffff, 0, 0],
        \<lparr>fp_bytes = all_ones_file, fp_pos = 108,
          fp_reads = [(92, 2, 2), (94, 10, 10), (104, 4, 4)], stderr = []\<rparr>)"
    by (simp add: run_defs all_ones_file_def example_header_def)
  from buffers_in_bounds [of initial_config "stream_at all_ones_file 92" 0 "0xffff" "0x0a41"
      "map of_char ''pendingNMI'' @ [0]" "[0xffffffff, 0, 0]"
      "\<lparr>fp_bytes = all_ones_file, fp_pos = 108,
          fp_reads = [(92, 2, 2), (94, 10, 10), (104, 4, 4)], stderr = []\<rparr>"] rr
  show ?thesis by blast
qed

subsection \<open>The container header\<close>

text \<open>
  C7. For a file that has the 12 bytes of the header: when the magic is that of the 32-bit
  format, or is none of the four known constants, \<^verbatim>\<open>process\<close> exits with a
  FormatError right after the header; the only read made is that of bytes 0--11, so no
  byte of the group table, which starts at offset 12, has been read.
\<close>

theorem bad_magic_is_format_error:
  assumes "12 \<le> length bs"
    and "magic = (le_word (take 4 bs) :: 32 word)"
    and "magic = VMSS_MAGIC_OLD \<or>
      magic \<notin> {VMSS_MAGIC_OLD, VMSS_MAGIC_RESTORED, VMSS_MAGIC, VMSS_MAGIC_PARTIAL}"
    and "e = (if magic = VMSS_MAGIC_OLD then Cant32bit else NotRecognized)"
  shows "process fuel cfg (Some bs) =
      Exited e \<lparr>fp_bytes = bs, fp_pos = 12, fp_reads = [(0, 12, 12)], stderr = []\<rparr> \<and>
    class_of e = FormatError \<and> sizeof_vmss_header = 12"
  using assms(2,3,4)
  unfolding process_def fopen_def option.case process_header [OF assms(1)] prod.case
  by (auto simp: Let_def sizeof_vmss_header_def)

theorem bad_magic_is_format_error_witness:
  "process 1 initial_config (Some old_magic_file) =
      Exited Cant32bit
        \<lparr>fp_bytes = old_magic_file, fp_pos = 12, fp_reads = [(0, 12, 12)], stderr = []\<rparr> \<and>
   process 1 initial_config (Some zero_magic_file) =
      Exited NotRecognized
        \<lparr>fp_bytes = zero_magic_file, fp_pos = 12, fp_reads = [(0, 12, 12)], stderr = []\<rparr>"
proof -
  have l1: "12 \<le> length old_magic_file" by (simp add: old_magic_file_def)
  have m1: "VMSS_MAGIC_OLD = (le_word (take 4 old_magic_file) :: 32 word)"
    by (simp add: old_magic_file_def le_word_simps VMSS_MAGIC_OLD_def)
  have d1: "VMSS_MAGIC_OLD = VMSS_MAGIC_OLD \<or>
      VMSS_MAGIC_OLD \<notin> {VMSS_MAGIC_OLD, VMSS_MAGIC_RESTORED, VMSS_MAGIC, VMSS_MAGIC_PARTIAL}"
    by simp
  have e1: "Cant32bit = (if VMSS_MAGIC_OLD = VMSS_MAGIC_OLD then Cant32bit else NotRecognized)"
    by simp
  have l2: "12 \<le> length zero_magic_file" by (simp add: zero_magic_file_def)
  have m2: "0 = (le_word (take 4 zero_magic_file) :: 32 word)"
    by (simp add: zero_magic_file_def le_word_simps)
  have d2: "(0 :: 32 word) = VMSS_MAGIC_OLD \<or>
      0 \<notin> {VMSS_MAGIC_OLD, VMSS_MAGIC_RESTORED, VMSS_MAGIC, VMSS_MAGIC_PARTIAL}"
    by (simp add: VMSS_MAGIC_OLD_def VMSS_MAGIC_RESTORED_def VMSS_MAGIC_def VMSS_MAGIC_PARTIAL_def)
  have e2: "NotRecognized = (if (0 :: 32 word) = VMSS_MAGIC_OLD then Cant32bit else NotRecognized)"
    by (simp add: VMSS_MAGIC_OLD_def)
  show ?thesis
    using bad_magic_is_format_error [OF l1 m1 d1 e1, of 1 initial_config]
      bad_magic_is_format_error [OF l2 m2 d2 e2, of 1 initial_config]
    by blast
qed

text \<open>A file too short for the header ends the run at the read of the header, before the
  magic is looked at.\<close>

lemma short_header_is_fatal:
  assumes "length bs < 12"
  shows "process fuel cfg (Some bs) =
    Exited CantReadHeader
      \<lparr>fp_bytes = bs, fp_pos = length bs, fp_reads = [(0, 12, length bs)], stderr = []\<rparr>"
proof -
  have "fread sizeof_vmss_header 1 \<lparr>fp_bytes = bs, fp_pos = 0, fp_reads = [], stderr = []\<rparr> =
    (0, bs, \<lparr>fp_bytes = bs, fp_pos = length bs, fp_reads = [(0, 12, length bs)], stderr = []\<rparr>)"
    using assms by (simp add: fread_def sizeof_vmss_header_def Let_def)
  then show ?thesis by (simp add: process_def fopen_def)
qed

subsection \<open>Query mode\<close>

text \<open>
  C2 fails on the code. With the option \<^verbatim>\<open>-n\<close> alone, \<^verbatim>\<open>g_cpu\<close> is \<open>-1\<close>; the
  comparison of line 234 converts it to the unsigned \<open>0xffffffff\<close>, so a
  \<^verbatim>\<open>pendingNMI\<close> whose index 0 is \<open>0xffffffff\<close> counts as the requested CPU and its
  value byte is rewritten.
\<close>

theorem query_mode_mutates:
  "getopt_loop [Opt_n] initial_config = Inr (initial_config\<lparr>g_cpu := - 1\<rparr>) \<and>
   all_ones_file ! 108 = 0 \<and>
   main 2 [Opt_n] (Some (Some all_ones_file)) =
     Returned
       \<lparr>fp_bytes = all_ones_file[108 := 1], fp_pos = 111,
        fp_reads = [(0, 12, 12), (12, 80, 80), (92, 2, 2), (94, 10, 10), (104, 4, 4),
          (108, 1, 1), (109, 2, 2)],
        stderr = [Warn_setting 0xffffffff 0 1]\<rparr>"
proof -
  let ?cfg = "initial_config\<lparr>g_cpu := - 1\<rparr>"
  let ?fp2 = "\<lparr>fp_bytes = all_ones_file, fp_pos = 92, fp_reads = [(0, 12, 12), (12, 80, 80)],
    stderr = []\<rparr>"
  let ?fp3 = "\<lparr>fp_bytes = all_ones_file[108 := 1], fp_pos = 109,
    fp_reads = [(0, 12, 12), (12, 80, 80), (92, 2, 2), (94, 10, 10), (104, 4, 4), (108, 1, 1)],
    stderr = [Warn_setting 0xffffffff 0 1]\<rparr>"
  let ?fp4 = "\<lparr>fp_bytes = all_ones_file[108 := 1], fp_pos = 111,
    fp_reads = [(0, 12, 12), (12, 80, 80), (92, 2, 2), (94, 10, 10), (104, 4, 4), (108, 1, 1),
      (109, 2, 2)],
    stderr = [Warn_setting 0xffffffff 0 1]\<rparr>"
  have opts: "getopt_loop [Opt_n] initial_config = Inr ?cfg" by simp
  have v: "all_ones_file ! 108 = 0"
    by (simp add: all_ones_file_def example_header_def nth_append)
  have b1: "setnmi_body ?cfg ?fp2 = Continue ?fp3"
    by (simp add: run_defs all_ones_file_def example_header_def list_update_append)
  have b2: "setnmi_body ?cfg ?fp3 = Break ?fp4"
    by (simp add: run_defs all_ones_file_def example_header_def list_update_append)
  have loop: "setnmi_loop (Suc (Suc 0)) ?cfg ?fp2 = Returned ?fp4"
    by (simp only: setnmi_loop.simps b1 b2 step.case)
  have grp: "groups_array 1 (take 80 (drop 12 all_ones_file)) =
      [\<lparr>vmss_group_name = map of_char ''cpu'' @ replicate 61 0, vmss_group_offs = 92,
        vmss_group_size = 28\<rparr>]"
    by (simp add: groups_array_def read_group_def sizeof_vmss_group_def VMSS_GROUP_NAMELEN_def
        all_ones_file_def example_header_def le_word_simps upt_1)
  have nm: "strcmp (map of_char ''cpu'' @ replicate 61 0) str_cpu = 0"
    by (simp add: strcmp_def c_str_def str_cpu_def)
  have sk: "fseek (sint (92 :: 64 word)) SEEK_SET
      \<lparr>fp_bytes = all_ones_file, fp_pos = 92, fp_reads = [(0, 12, 12), (12, 80, 80)],
        stderr = []\<rparr> = Some ?fp2"
    by (simp add: fseek_def LONG_MAX_def)
  have pg: "process_groups (Suc (Suc 0)) ?cfg
      [\<lparr>vmss_group_name = map of_char ''cpu'' @ replicate 61 0, vmss_group_offs = 92,
        vmss_group_size = 28\<rparr>] ?fp2 = Returned ?fp4"
    by (simp add: strcmp_def c_str_def str_cpu_def setnmi_def fseek_def LONG_MAX_def loop
        del: setnmi_loop.simps)
  have hdr: "fread sizeof_vmss_header 1
      \<lparr>fp_bytes = all_ones_file, fp_pos = 0, fp_reads = [], stderr = []\<rparr> =
      (1, take 12 all_ones_file,
       \<lparr>fp_bytes = all_ones_file, fp_pos = 12, fp_reads = [(0, 12, 12)], stderr = []\<rparr>)"
    by (simp add: fread_def sizeof_vmss_header_def all_ones_file_def example_header_def)
  have magic: "(le_word (take 4 (take 12 all_ones_file)) :: 32 word) = VMSS_MAGIC"
    by (simp add: all_ones_file_def example_header_def le_word_simps VMSS_MAGIC_def)
  have ng: "unat (le_word (take 4 (drop 8 (take 12 all_ones_file))) :: 32 word) = 1"
    by (simp add: all_ones_file_def example_header_def le_word_simps)
  have gt: "fread sizeof_vmss_group 1
      \<lparr>fp_bytes = all_ones_file, fp_pos = 12, fp_reads = [(0, 12, 12)], stderr = []\<rparr> =
      (1, take 80 (drop 12 all_ones_file), ?fp2)"
    by (simp add: fread_def sizeof_vmss_group_def VMSS_GROUP_NAMELEN_def all_ones_file_def
        example_header_def)
  have "process (Suc (Suc 0)) ?cfg (Some all_ones_file) = Returned ?fp4"
    unfolding process_def fopen_def option.case hdr prod.case Let_def magic ng gt grp pg
    by (simp add: VMSS_MAGIC_def VMSS_MAGIC_OLD_def)
  then have "main (Suc (Suc 0)) [Opt_n] (Some (Some all_ones_file)) = Returned ?fp4"
    unfolding main_def opts by simp
  then have "main 2 [Opt_n] (Some (Some all_ones_file)) = Returned ?fp4"
    by (simp only: numeral_2_eq_2)
  with opts v show ?thesis by blast
qed

text \<open>
  The options are taken in order and the last of \<^verbatim>\<open>-c\<close> and \<^verbatim>\<open>-n\<close> decides
  \<^verbatim>\<open>g_cpu\<close>: \<^verbatim>\<open>-n -c 0\<close> is a write to CPU 0. An argument of \<^verbatim>\<open>-c\<close> that is
  negative as an \<^verbatim>\<open>int\<close> is refused.
\<close>

lemma last_option_wins:
  "getopt_loop [Opt_n, Opt_c 0 True] initial_config = Inr initial_config \<and>
   getopt_loop [Opt_c 0 True, Opt_n] initial_config = Inr (initial_config\<lparr>g_cpu := - 1\<rparr>) \<and>
   getopt_loop [Opt_c 0xffffffff True] initial_config = Inl InvalidCPU"
  by (simp add: initial_config_def)

subsection \<open>The example of the specification\<close>

text \<open>
  The end-to-end example of the specification, run through \<^verbatim>\<open>main\<close>: with no
  option the value of \<^verbatim>\<open>pendingNMI\<close> of CPU 0 becomes 1 and the file is otherwise the
  same; with \<^verbatim>\<open>-c 1\<close> and with \<^verbatim>\<open>-n\<close> the file is the same.
\<close>

lemma example_groups:
  "groups_array 1 (take 80 (drop 12 example_file)) =
      [\<lparr>vmss_group_name = map of_char ''cpu'' @ replicate 61 0, vmss_group_offs = 92,
        vmss_group_size = 28\<rparr>]"
  by (simp add: groups_array_def read_group_def sizeof_vmss_group_def VMSS_GROUP_NAMELEN_def
      example_file_def example_header_def le_word_simps upt_1)

lemma example_process:
  assumes "setnmi_loop n cfg
      \<lparr>fp_bytes = example_file, fp_pos = 92, fp_reads = [(0, 12, 12), (12, 80, 80)],
        stderr = []\<rparr> = Returned fp'"
  shows "process n cfg (Some example_file) = Returned fp'"
proof -
  let ?fp2 = "\<lparr>fp_bytes = example_file, fp_pos = 92, fp_reads = [(0, 12, 12), (12, 80, 80)],
    stderr = []\<rparr>"
  have pg: "process_groups n cfg
      [\<lparr>vmss_group_name = map of_char ''cpu'' @ replicate 61 0, vmss_group_offs = 92,
        vmss_group_size = 28\<rparr>] ?fp2 = Returned fp'"
    by (simp add: strcmp_def c_str_def str_cpu_def setnmi_def fseek_def LONG_MAX_def assms)
  have hdr: "fread sizeof_vmss_header 1
      \<lparr>fp_bytes = example_file, fp_pos = 0, fp_reads = [], stderr = []\<rparr> =
      (1, take 12 example_file,
       \<lparr>fp_bytes = example_file, fp_pos = 12, fp_reads = [(0, 12, 12)], stderr = []\<rparr>)"
    by (simp add: fread_def sizeof_vmss_header_def example_file_def example_header_def)
  have magic: "(le_word (take 4 (take 12 example_file)) :: 32 word) = VMSS_MAGIC"
    by (simp add: example_file_def example_header_def le_word_simps VMSS_MAGIC_def)
  have ng: "unat (le_word (take 4 (drop 8 (take 12 example_file))) :: 32 word) = 1"
    by (simp add: example_file_def example_header_def le_word_simps)
  have gt: "fread sizeof_vmss_group 1
      \<lparr>fp_bytes = example_file, fp_pos = 12, fp_reads = [(0, 12, 12)], stderr = []\<rparr> =
      (1, take 80 (drop 12 example_file), ?fp2)"
    by (simp add: fread_def sizeof_vmss_group_def VMSS_GROUP_NAMELEN_def example_file_def
        example_header_def)
  show ?thesis
    unfolding process_def fopen_def option.case hdr prod.case Let_def magic ng gt example_groups pg
    by (simp add: VMSS_MAGIC_def VMSS_MAGIC_OLD_def)
qed

lemma example_end_to_end:
  "main 3 [] (Some (Some example_file)) =
     Returned
       \<lparr>fp_bytes = example_file[117 := 1], fp_pos = 120,
        fp_reads = [(0, 12, 12), (12, 80, 80), (92, 2, 2), (94, 3, 3), (101, 2, 2),
          (103, 10, 10), (113, 4, 4), (117, 1, 1), (118, 2, 2)],
        stderr = [Warn_setting 0 0 1]\<rparr> \<and>
   main 3 [Opt_c 1 True] (Some (Some example_file)) =
     Returned
       \<lparr>fp_bytes = example_file, fp_pos = 120,
        fp_reads = [(0, 12, 12), (12, 80, 80), (92, 2, 2), (94, 3, 3), (101, 2, 2),
          (103, 10, 10), (113, 4, 4), (117, 1, 1), (118, 2, 2)],
        stderr = [Warn_skipping 0 0 1]\<rparr> \<and>
   main 3 [Opt_n] (Some (Some example_file)) =
     Returned
       \<lparr>fp_bytes = example_file, fp_pos = 120,
        fp_reads = [(0, 12, 12), (12, 80, 80), (92, 2, 2), (94, 3, 3), (101, 2, 2),
          (103, 10, 10), (113, 4, 4), (117, 1, 1), (118, 2, 2)],
        stderr = [Warn_is 0 0]\<rparr>"
proof -
  let ?fp2 = "\<lparr>fp_bytes = example_file, fp_pos = 92, fp_reads = [(0, 12, 12), (12, 80, 80)],
    stderr = []\<rparr>"
  let ?fp3 = "\<lparr>fp_bytes = example_file, fp_pos = 101,
    fp_reads = [(0, 12, 12), (12, 80, 80), (92, 2, 2), (94, 3, 3)], stderr = []\<rparr>"
  let ?r = "[(0, 12, 12), (12, 80, 80), (92, 2, 2), (94, 3, 3), (101, 2, 2),
          (103, 10, 10), (113, 4, 4), (117, 1, 1)]"
  have a1: "setnmi_body cfg ?fp2 = Continue ?fp3" for cfg
    by (simp add: run_defs example_file_def example_header_def)
  \<comment> \<open>the default: CPU 0, set\<close>
  let ?w4 = "\<lparr>fp_bytes = example_file[117 := 1], fp_pos = 118, fp_reads = ?r,
    stderr = [Warn_setting 0 0 1]\<rparr>"
  let ?w5 = "\<lparr>fp_bytes = example_file[117 := 1], fp_pos = 120, fp_reads = ?r @ [(118, 2, 2)],
    stderr = [Warn_setting 0 0 1]\<rparr>"
  have w2: "setnmi_body initial_config ?fp3 = Continue ?w4"
    by (simp add: run_defs example_file_def example_header_def list_update_append)
  have w3: "setnmi_body initial_config ?w4 = Break ?w5"
    by (simp add: run_defs example_file_def example_header_def list_update_append)
  have "setnmi_loop 3 initial_config ?fp2 = Returned ?w5"
    by (simp only: setnmi_loop_3 setnmi_loop.simps a1 w2 w3 step.case)
  from example_process [OF this]
  have A: "main 3 [] (Some (Some example_file)) = Returned ?w5"
    by (simp add: main_def)
  \<comment> \<open>CPU 1\<close>
  let ?c1 = "initial_config\<lparr>g_cpu := 1\<rparr>"
  let ?s4 = "\<lparr>fp_bytes = example_file, fp_pos = 118, fp_reads = ?r,
    stderr = [Warn_skipping 0 0 1]\<rparr>"
  let ?s5 = "\<lparr>fp_bytes = example_file, fp_pos = 120, fp_reads = ?r @ [(118, 2, 2)],
    stderr = [Warn_skipping 0 0 1]\<rparr>"
  have s2: "setnmi_body ?c1 ?fp3 = Continue ?s4"
    by (simp add: run_defs example_file_def example_header_def)
  have s3: "setnmi_body ?c1 ?s4 = Break ?s5"
    by (simp add: run_defs example_file_def example_header_def)
  have "setnmi_loop 3 ?c1 ?fp2 = Returned ?s5"
    by (simp only: setnmi_loop_3 setnmi_loop.simps a1 s2 s3 step.case)
  from example_process [OF this]
  have B: "main 3 [Opt_c 1 True] (Some (Some example_file)) = Returned ?s5"
    by (simp add: main_def initial_config_def)
  \<comment> \<open>query\<close>
  let ?cn = "initial_config\<lparr>g_cpu := - 1\<rparr>"
  let ?q4 = "\<lparr>fp_bytes = example_file, fp_pos = 118, fp_reads = ?r,
    stderr = [Warn_is 0 0]\<rparr>"
  let ?q5 = "\<lparr>fp_bytes = example_file, fp_pos = 120, fp_reads = ?r @ [(118, 2, 2)],
    stderr = [Warn_is 0 0]\<rparr>"
  have q2: "setnmi_body ?cn ?fp3 = Continue ?q4"
    by (simp add: run_defs example_file_def example_header_def)
  have q3: "setnmi_body ?cn ?q4 = Break ?q5"
    by (simp add: run_defs example_file_def example_header_def)
  have "setnmi_loop 3 ?cn ?fp2 = Returned ?q5"
    by (simp only: setnmi_loop_3 setnmi_loop.simps a1 q2 q3 step.case)
  from example_process [OF this]
  have C: "main 3 [Opt_n] (Some (Some example_file)) = Returned ?q5"
    by (simp add: main_def)
  from A B C show ?thesis by simp
qed

end
